theory Spec2Isabelle
  imports Complex_Main "HOL-Library.AList"
begin

section \<open>JavaScript numbers, bytes and buffers\<close>

text \<open>
  The library reads ROS bag files in the browser. A \<open>Buffer\<close> is a sequence of bytes;
  a byte is a \<^typ>\<open>char\<close> (eight bits), so a buffer is a \<^typ>\<open>string\<close> and the ASCII
  literals of the source can be written as they are. Offsets and lengths are
  JavaScript numbers that hold integers: they are \<^typ>\<open>int\<close>, because a length read with
  \<open>readInt32LE\<close> can be negative and an offset can be moved below zero by it.
  Seconds given as a fraction (\<open>0.5\<close>, \<open>-0.033\<close>) are \<^typ>\<open>real\<close>: the arithmetic of
  IEEE doubles is idealised to exact arithmetic, which agrees with the doubles wherever
  every intermediate value is representable (as in the concrete evaluations below).
\<close>

type_synonym buffer = string

datatype js_error = RangeError | TypeError

text \<open>\<open>Math.trunc\<close>, and the remainder operator \<open>%\<close>, whose result has the sign of the dividend.\<close>

definition js_trunc :: "real \<Rightarrow> int" where
  "js_trunc x = (if 0 \<le> x then \<lfloor>x\<rfloor> else - \<lfloor>- x\<rfloor>)"

definition js_rem_real :: "real \<Rightarrow> real \<Rightarrow> real" where
  "js_rem_real a b = a - b * of_int (js_trunc (a / b))"

definition js_rem :: "int \<Rightarrow> int \<Rightarrow> int" where
  "js_rem a b = sgn a * (\<bar>a\<bar> mod \<bar>b\<bar>)"

text \<open>Little-endian value of a byte sequence.\<close>

fun le_nat :: "buffer \<Rightarrow> nat" where
  "le_nat [] = 0"
| "le_nat (b # bs) = of_char b + 256 * le_nat bs"

text \<open>
  \<open>buf.readUInt32LE(off)\<close> and \<open>buf.readInt32LE(off)\<close>: four bytes at \<open>off\<close>, and a
  \<open>RangeError\<close> when they do not lie inside the buffer.
\<close>

definition readUInt32LE :: "buffer \<Rightarrow> int \<Rightarrow> js_error + int" where
  "readUInt32LE buf off =
     (if 0 \<le> off \<and> off + 4 \<le> int (length buf)
      then Inr (int (le_nat (take 4 (drop (nat off) buf))))
      else Inl RangeError)"

definition to_int32 :: "int \<Rightarrow> int" where
  "to_int32 u = (if u < 2147483648 then u else u - 4294967296)"

definition readInt32LE :: "buffer \<Rightarrow> int \<Rightarrow> js_error + int" where
  "readInt32LE buf off =
     (case readUInt32LE buf off of Inl e \<Rightarrow> Inl e | Inr u \<Rightarrow> Inr (to_int32 u))"

text \<open>
  \<open>buf.subarray(start, end)\<close>: a negative index counts from the end of the buffer, both
  indices are clamped to the buffer, and an end before the start gives the empty view.
\<close>

definition rel_index :: "int \<Rightarrow> int \<Rightarrow> nat" where
  "rel_index len i = nat (if i < 0 then max (len + i) 0 else min i len)"

definition subarray :: "buffer \<Rightarrow> int \<Rightarrow> int \<Rightarrow> buffer" where
  "subarray buf start end =
     (let b = rel_index (int (length buf)) start;
          e = rel_index (int (length buf)) end
      in take (e - b) (drop b buf))"

definition subarray_from :: "buffer \<Rightarrow> int \<Rightarrow> buffer" where
  "subarray_from buf start = drop (rel_index (int (length buf)) start) buf"

text \<open>\<open>buf.indexOf(byte)\<close>, with \<open>None\<close> for the result \<open>-1\<close>.\<close>

fun indexOf :: "buffer \<Rightarrow> char \<Rightarrow> nat option" where
  "indexOf [] c = None"
| "indexOf (b # bs) c = (if b = c then Some 0 else map_option Suc (indexOf bs c))"

text \<open>
  \<open>buf.toString()\<close> decodes UTF-8. A JavaScript string is modelled by its UTF-8 bytes,
  so decoding is the identity; this is exact on ASCII bytes, the only names the
  format uses, and two byte sequences decode to the same ASCII string only when
  they are equal.
\<close>

definition toString :: "buffer \<Rightarrow> string" where
  "toString buf = buf"

section \<open>Time (utils/timeUtil.ts)\<close>

record ITime =
  sec :: int
  nsec :: int

definition compareTime :: "ITime \<Rightarrow> ITime \<Rightarrow> int" where
  "compareTime a b =
     (let secDiff = sec a - sec b
      in if secDiff \<noteq> 0 then secDiff else nsec a - nsec b)"

definition isLessThan :: "ITime \<Rightarrow> ITime \<Rightarrow> bool" where
  "isLessThan a b = (compareTime a b < 0)"

definition addSecToTime :: "ITime \<Rightarrow> real \<Rightarrow> ITime" where
  "addSecToTime time s =
     (let totalNano = nsec time + \<lfloor>js_rem_real s 1 * 1000000000\<rfloor>;
          carry = \<lfloor>real_of_int totalNano / 1000000000\<rfloor>
      in \<lparr> sec = sec time + \<lfloor>s\<rfloor> + carry,
           nsec = js_rem totalNano 1000000000 \<rparr>)"

text \<open>\<open>extractTime\<close> of helper-functions.ts: two unsigned 32-bit reads.\<close>

definition extractTime :: "buffer \<Rightarrow> int \<Rightarrow> js_error + ITime" where
  "extractTime buf off =
     (case readUInt32LE buf off of Inl e \<Rightarrow> Inl e
      | Inr s \<Rightarrow>
         (case readUInt32LE buf (off + 4) of Inl e \<Rightarrow> Inl e
          | Inr n \<Rightarrow> Inr \<lparr> sec = s, nsec = n \<rparr>))"

text \<open>The result the specification gives for \<open>add(t, s)\<close>, with Euclidean modulus.\<close>

definition add_spec :: "ITime \<Rightarrow> real \<Rightarrow> ITime" where
  "add_spec t s =
     (let frac_ns = \<lfloor>(s - of_int \<lfloor>s\<rfloor>) * 1000000000\<rfloor>;
          total_ns = nsec t + frac_ns
      in \<lparr> sec = sec t + \<lfloor>s\<rfloor> + total_ns div 1000000000,
           nsec = total_ns mod 1000000000 \<rparr>)"

section \<open>Record framing (helper-functions.ts)\<close>

text \<open>
  \<open>IRecordFields\<close> is an object used as a dictionary from field names to byte values.
  \<open>extractFields\<close> creates it as \<open>{}\<close>, an object without own properties whose prototype is
  \<open>Object.prototype\<close>; the model is the map of its own properties, which is what the
  callers read (\<open>recordHeaderFields.conn\<close>, \<open>.time\<close>, \<open>.size\<close>, ...: none of these names
  is answered by a prototype).

  \<open>setField\<close> is the assignment \<open>headerFields[fieldName] = fieldBufferValue\<close>. It creates
  or overwrites the own property \<open>fieldName\<close>, for every name but one:
  \<open>Object.prototype\<close> answers the name \<open>__proto__\<close> with a setter, so the assignment to
  that name calls the setter, which makes the value the prototype of \<open>headerFields\<close>,
  and no own property is created. The prototype is not part of the map. Once it has
  been replaced by a value buffer, that buffer is asked first about the later names
  that are not own properties yet; the model follows the ordinary case, in which the
  buffer answers none of them (it does answer its indices and the names of its
  read-only properties, such as \<open>length\<close>).
\<close>

type_synonym IRecordFields = "string \<rightharpoonup> buffer"

definition setField :: "IRecordFields \<Rightarrow> string \<Rightarrow> buffer \<Rightarrow> IRecordFields" where
  "setField headerFields fieldName fieldBufferValue =
     (if fieldName = ''__proto__'' then headerFields
      else headerFields(fieldName \<mapsto> fieldBufferValue))"

text \<open>
  \<open>extractFields\<close> returns the fields, or \<open>undefined\<close> (here \<open>None\<close>) at an entry without
  \<open>=\<close>, or throws the \<open>RangeError\<close> of a length read outside the buffer. The \<open>while\<close>
  loop is the recursion on \<open>offset\<close>.
\<close>

function extractFields_loop ::
  "buffer \<Rightarrow> int \<Rightarrow> IRecordFields \<Rightarrow> js_error + IRecordFields option" where
  "extractFields_loop buf offset headerFields =
     (if offset < int (length buf) then
        (case readInt32LE buf offset of
           Inl e \<Rightarrow> Inl e
         | Inr fieldLen \<Rightarrow>
             (case indexOf (subarray buf (offset + 4) (offset + 4 + fieldLen)) CHR ''='' of
                None \<Rightarrow> Inr None
              | Some equalCharIndex \<Rightarrow>
                  (let fieldData = subarray buf (offset + 4) (offset + 4 + fieldLen);
                       fieldName = toString (subarray fieldData 0 (int equalCharIndex));
                       fieldBufferValue = subarray_from fieldData (int equalCharIndex + 1)
                   in extractFields_loop buf (offset + 4 + fieldLen)
                        (setField headerFields fieldName fieldBufferValue))))
      else Inr (Some headerFields))"
  by pat_completeness auto
termination
proof (relation "measure (\<lambda>(buf, offset, hf).
          if offset < 0 then 0 else Suc (nat (int (length buf) - offset)))", goal_cases)
  case 1
  show ?case by simp
next
  case (2 buf offset headerFields fieldLen equalCharIndex)
  from 2(2) have range: "0 \<le> offset" "offset + 4 \<le> int (length buf)"
    by (auto simp: readInt32LE_def readUInt32LE_def split: if_splits sum.splits)
  have nonempty: "subarray buf (offset + 4) (offset + 4 + fieldLen) \<noteq> []"
    using 2(3) by auto
  have "fieldLen < 0 \<Longrightarrow> 0 \<le> offset + 4 + fieldLen \<Longrightarrow> False"
    using nonempty range by (simp add: subarray_def rel_index_def Let_def)
  then show ?case
    using range by (cases "fieldLen < 0") auto
qed

declare extractFields_loop.simps [simp del]

definition extractFields :: "buffer \<Rightarrow> js_error + IRecordFields option" where
  "extractFields buf = extractFields_loop buf 0 Map.empty"

record IRecordShallow =
  recordOffset :: int
  recordLength :: int
  recordDataOffset :: int
  recordHeaderFields :: IRecordFields
  recordDataBuffer :: buffer

definition shallowRecordRead :: "buffer \<Rightarrow> int \<Rightarrow> js_error + IRecordShallow option" where
  "shallowRecordRead recordBuffer initialOffset =
     (case readInt32LE recordBuffer 0 of
        Inl e \<Rightarrow> Inl e
      | Inr recordHeaderLen \<Rightarrow>
          (case extractFields (subarray recordBuffer 4 (4 + recordHeaderLen)) of
             Inl e \<Rightarrow> Inl e
           | Inr None \<Rightarrow> Inr None
           | Inr (Some hdrFields) \<Rightarrow>
               (case readInt32LE recordBuffer (recordHeaderLen + 4) of
                  Inl e \<Rightarrow> Inl e
                | Inr recordDataLength \<Rightarrow>
                    (let headerOffset = 4 + recordHeaderLen + 4;
                         recLength = recordDataLength + headerOffset
                     in Inr (Some \<lparr> recordOffset = initialOffset,
                                     recordLength = recLength,
                                     recordDataOffset = initialOffset + headerOffset,
                                     recordHeaderFields = hdrFields,
                                     recordDataBuffer =
                                       subarray recordBuffer headerOffset recLength \<rparr>)))))"

text \<open>
  The serialisation that \<open>extractFields\<close> is to invert, in the specification's words:
  entries \<open>len:u32 LE | name "=" value\<close>, concatenated.
\<close>

definition u32le :: "nat \<Rightarrow> buffer" where
  "u32le n = [char_of n, char_of (n div 256), char_of (n div 65536), char_of (n div 16777216)]"

definition frame_entry :: "buffer \<Rightarrow> buffer" where
  "frame_entry d = u32le (length d) @ d"

definition frame_entries :: "buffer list \<Rightarrow> buffer" where
  "frame_entries ds = concat (map frame_entry ds)"

definition field_entry :: "string \<times> buffer \<Rightarrow> buffer" where
  "field_entry kv = fst kv @ CHR ''='' # snd kv"

definition serialize_fields :: "(string \<times> buffer) list \<Rightarrow> buffer" where
  "serialize_fields fs = frame_entries (map field_entry fs)"

definition is_ascii :: "string \<Rightarrow> bool" where
  "is_ascii s = list_all (\<lambda>c. of_char c < (128 :: nat)) s"

section \<open>Bag inspector\<close>

text \<open>The constants of utils/bag-format-constants.ts.\<close>

definition FORMAT_VERSION_OFFSET :: int where
  "FORMAT_VERSION_OFFSET = 13"

definition FORMAT_VERSION :: string where
  "FORMAT_VERSION = ''#ROSBAG V2.0'' @ [CHR 0x0A]"

definition HEADER_MIN_LEN :: int where
  "HEADER_MIN_LEN = 8"

text \<open>
  \<open>_verifyHeader\<close> returns \<open>{valid, error}\<close>; the three messages are the three
  constructors below, named as the error kinds of the specification. The first
  carries the magic string that was found.
\<close>

datatype header_error = InvalidMagic string | Truncated | HeaderTooLarge

datatype IBagHeaderValidation = Valid | Invalid header_error

definition verifyHeader :: "buffer \<Rightarrow> js_error + IBagHeaderValidation" where
  "verifyHeader headerBuffer =
     (let magicWordBuffer = subarray headerBuffer 0 FORMAT_VERSION_OFFSET;
          totalBufferLength = int (length headerBuffer)
      in if toString magicWordBuffer \<noteq> FORMAT_VERSION
         then Inr (Invalid (InvalidMagic (toString magicWordBuffer)))
         else if totalBufferLength < FORMAT_VERSION_OFFSET + HEADER_MIN_LEN
         then Inr (Invalid Truncated)
         else (case readInt32LE headerBuffer FORMAT_VERSION_OFFSET of
                 Inl e \<Rightarrow> Inl e
               | Inr headerLength \<Rightarrow>
                   if totalBufferLength < FORMAT_VERSION_OFFSET + HEADER_MIN_LEN + headerLength
                   then Inr (Invalid HeaderTooLarge)
                   else Inr Valid))"

text \<open>
  The validation as the specification words it: the header length is an unsigned
  32-bit number.
\<close>

definition verifyHeader_spec :: "buffer \<Rightarrow> IBagHeaderValidation" where
  "verifyHeader_spec b =
     (if take 13 b \<noteq> FORMAT_VERSION then Invalid (InvalidMagic (take 13 b))
      else if length b < 13 + 8 then Invalid Truncated
      else if length b < 13 + 8 + le_nat (take 4 (drop 13 b)) then Invalid HeaderTooLarge
      else Valid)"

text \<open>
  \<open>IChunkInfo\<close>. \<open>_parseChunkInfo\<close> leaves \<open>nextChunkPosition\<close> undefined and \<open>idx\<close>
  zero; both are overwritten for every chunk before anything reads them, so the
  fields are plain numbers here. The positions are read as unsigned numbers, or are
  the size of the file: they are natural numbers.
\<close>

record IChunkConnection =
  cc_conn :: int
  cc_count :: int

record IChunkInfo =
  ci_recordOffset :: int
  ci_recordLength :: int
  ci_recordDataOffset :: int
  version :: int
  chunkPosition :: nat
  startTime :: ITime
  endTime :: ITime
  count :: int
  connections :: "IChunkConnection list"
  idx :: int
  nextChunkPosition :: nat

text \<open>
  \<open>Array.prototype.sort\<close> with a comparator is a stable sort: an element moves in
  front of another only when the comparator is positive the other way round. For
  a comparator that is a total preorder, as \<open>compareTime\<close> is, every stable sort
  returns the same list; insertion from the right computes it.
\<close>

fun insort_cmp :: "('a \<Rightarrow> 'a \<Rightarrow> int) \<Rightarrow> 'a \<Rightarrow> 'a list \<Rightarrow> 'a list" where
  "insort_cmp cmp x [] = [x]"
| "insort_cmp cmp x (y # ys) =
     (if cmp x y \<le> 0 then x # y # ys else y # insort_cmp cmp x ys)"

definition js_sort :: "('a \<Rightarrow> 'a \<Rightarrow> int) \<Rightarrow> 'a list \<Rightarrow> 'a list" where
  "js_sort cmp xs = foldr (insort_cmp cmp) xs []"

text \<open>
  The tail of \<open>_extractFileMetadata$\<close>: the three chained array operations on the
  parsed chunk infos. \<open>chunksInfo[i + 1]?.chunkPosition || file.size\<close> is the file
  size when there is no next element and also when the next position is 0.
\<close>

definition nth_opt :: "'a list \<Rightarrow> nat \<Rightarrow> 'a option" where
  "nth_opt xs i = (if i < length xs then Some (xs ! i) else None)"

definition linkNext :: "IChunkInfo list \<Rightarrow> nat \<Rightarrow> IChunkInfo list" where
  "linkNext chunksInfo fileSize =
     map (\<lambda>(i, chunk). chunk\<lparr> nextChunkPosition :=
             (case nth_opt chunksInfo (i + 1) of
                None \<Rightarrow> fileSize
              | Some c \<Rightarrow> if chunkPosition c = 0 then fileSize else chunkPosition c) \<rparr>)
         (enumerate 0 chunksInfo)"

definition assignIdx :: "IChunkInfo list \<Rightarrow> IChunkInfo list" where
  "assignIdx cs = map (\<lambda>(i, chunk). chunk\<lparr> idx := int i \<rparr>) (enumerate 0 cs)"

definition sortChunks :: "IChunkInfo list \<Rightarrow> nat \<Rightarrow> IChunkInfo list" where
  "sortChunks chunksInfo fileSize =
     assignIdx (js_sort (\<lambda>a b. compareTime (startTime a) (startTime b))
                  (linkNext chunksInfo fileSize))"

record IBagMetadata =
  md_startTime :: ITime
  md_endTime :: ITime
  chunksInfo :: "IChunkInfo list"

text \<open>
  The metadata that is emitted; \<open>chunksInfo[0].startTime\<close> throws a \<open>TypeError\<close> when
  the bag has no chunk. The connections map is not part of what is stated here.
\<close>

definition extractFileMetadata :: "IChunkInfo list \<Rightarrow> nat \<Rightarrow> js_error + IBagMetadata" where
  "extractFileMetadata parsed fileSize =
     (let cs = sortChunks parsed fileSize
      in if cs = [] then Inl TypeError
         else Inr \<lparr> md_startTime = startTime (hd cs),
                    md_endTime = endTime (last cs),
                    chunksInfo = cs \<rparr>)"

section \<open>Schema compiler (parseMsgDefinition)\<close>

text \<open>
  Message definitions are ASCII text. \<open>trim\<close> and the regular expression \<open>\s+\<close> see
  the six ASCII white-space characters, \<open>toLowerCase\<close> maps \<open>A\<close> to \<open>Z\<close>.
\<close>

datatype IMsgFormat =
  IMsgFormat (key: string) (keyType: string) (isArray: bool)
             (nestedKeys: "IMsgFormat list") (constantValue: "string option")
             (arrayLength: "nat option")

record IMsgSchema =
  topLevelKeys :: "IMsgFormat list"
  MSGSTypes :: "(string \<times> IMsgFormat) list"

definition is_ws :: "char \<Rightarrow> bool" where
  "is_ws c = (c = CHR 0x20 \<or> c = CHR 0x09 \<or> c = CHR 0x0A \<or> c = CHR 0x0B \<or> c = CHR 0x0C
              \<or> c = CHR 0x0D)"

definition trim :: "string \<Rightarrow> string" where
  "trim s = rev (dropWhile is_ws (rev (dropWhile is_ws s)))"

definition to_lower :: "char \<Rightarrow> char" where
  "to_lower c = (let n = (of_char c :: nat) in if 65 \<le> n \<and> n \<le> 90 then char_of (n + 32) else c)"

definition toLowerCase :: "string \<Rightarrow> string" where
  "toLowerCase s = map to_lower s"

definition startsWith :: "string \<Rightarrow> string \<Rightarrow> bool" where
  "startsWith s p = (take (length p) s = p)"

text \<open>\<open>s.split(c)\<close> for a one-character separator: never empty, \<open>"".split(c) = [""]\<close>.\<close>

fun split_on :: "char \<Rightarrow> string \<Rightarrow> string list" where
  "split_on c [] = [] # []"
| "split_on c (x # xs) =
     (if x = c then [] # split_on c xs
      else (case split_on c xs of [] \<Rightarrow> [x] # [] | w # ws \<Rightarrow> (x # w) # ws))"

text \<open>\<open>s.split(/\s+/)\<close>: the pieces between maximal runs of white space.\<close>

fun split_ws :: "string \<Rightarrow> string list" where
  "split_ws [] = [] # []"
| "split_ws (x # xs) =
     (if is_ws x then (if xs \<noteq> [] \<and> is_ws (hd xs) then split_ws xs else [] # split_ws xs)
      else (case split_ws xs of [] \<Rightarrow> [x] # [] | w # ws \<Rightarrow> (x # w) # ws))"

definition is_digit :: "char \<Rightarrow> bool" where
  "is_digit c = (48 \<le> (of_char c :: nat) \<and> (of_char c :: nat) \<le> 57)"

text \<open>\<open>parseInt(ds, 10)\<close> on a string of decimal digits.\<close>

definition parseInt :: "string \<Rightarrow> nat" where
  "parseInt ds = foldl (\<lambda>a d. 10 * a + (of_char d - 48)) 0 ds"

text \<open>
  \<open>keyType.match(/^(.+)\[(\d*)\]$/)\<close>: the two groups, when the type ends in a bracketed
  run of digits that follows a non-empty prefix. The digits hold no bracket, so the
  greedy prefix ends at the last opening bracket.
\<close>

definition arrayMatch :: "string \<Rightarrow> (string \<times> string) option" where
  "arrayMatch t =
     (if t \<noteq> [] \<and> last t = CHR '']'' then
        (let body = butlast t;
             ds = rev (takeWhile is_digit (rev body));
             pre = take (length body - length ds) body
         in if pre \<noteq> [] \<and> last pre = CHR ''['' \<and> butlast pre \<noteq> []
            then Some (butlast pre, ds) else None)
      else None)"

text \<open>
  One retained line to its \<open>lineFormat\<close>. A line of a single token leaves \<open>key\<close>
  undefined, and \<open>key.includes\<close> throws a \<open>TypeError\<close>.
\<close>

definition parseLine :: "string \<Rightarrow> js_error + IMsgFormat" where
  "parseLine line =
     (case split_ws (trim line) of
        [] \<Rightarrow> Inl TypeError
      | [t] \<Rightarrow> Inl TypeError
      | t # k # rest \<Rightarrow>
          (let cv0 = (case rest of
                        equalSign # cv # others \<Rightarrow> if equalSign = ''='' then Some cv else None
                      | _ \<Rightarrow> None);
               kc = (if CHR ''='' \<in> set k
                     then (case split_on CHR ''='' k of
                             a # b # others \<Rightarrow> (a, Some b)
                           | _ \<Rightarrow> (k, cv0))
                     else (k, cv0));
               am = arrayMatch t;
               t1 = (case am of None \<Rightarrow> t | Some (pre, ds) \<Rightarrow> pre);
               len = (case am of None \<Rightarrow> None
                      | Some (pre, ds) \<Rightarrow> if ds \<noteq> [] then Some (parseInt ds) else None)
           in Inr (IMsgFormat (fst kc) (toLowerCase (last (split_on CHR ''/'' t1)))
                     (am \<noteq> None) [] (snd kc) len)))"

definition finalizeMSG :: "IMsgFormat \<Rightarrow> IMsgSchema \<Rightarrow> IMsgSchema" where
  "finalizeMSG cur schema =
     (let name = toLowerCase (last (split_on CHR ''/'' (key cur)))
      in schema\<lparr> MSGSTypes :=
           AList.update name
             (IMsgFormat (key cur) name (isArray cur) (nestedKeys cur) (constantValue cur)
                (arrayLength cur))
             (MSGSTypes schema) \<rparr>)"

definition pushNested :: "IMsgFormat \<Rightarrow> IMsgFormat \<Rightarrow> IMsgFormat" where
  "pushNested cur f =
     IMsgFormat (key cur) (keyType cur) (isArray cur) (nestedKeys cur @ [f])
       (constantValue cur) (arrayLength cur)"

text \<open>The second loop of \<open>parseMsgDefinition\<close>; the last line is the one with no line after it.\<close>

fun scanLines :: "string list \<Rightarrow> IMsgSchema \<Rightarrow> IMsgFormat \<Rightarrow> js_error + IMsgSchema" where
  "scanLines [] schema currentMSG = Inr schema"
| "scanLines (l # ls) schema currentMSG =
     (case parseLine l of
        Inl e \<Rightarrow> Inl e
      | Inr lineFormat \<Rightarrow>
          if keyType lineFormat = ''msg:'' then
            scanLines ls
              (if key currentMSG \<noteq> [] then finalizeMSG currentMSG schema else schema)
              lineFormat
          else if key currentMSG \<noteq> [] then
            scanLines ls
              (if ls = [] then finalizeMSG (pushNested currentMSG lineFormat) schema else schema)
              (pushNested currentMSG lineFormat)
          else
            scanLines ls (schema\<lparr> topLevelKeys := topLevelKeys schema @ [lineFormat] \<rparr>)
              currentMSG)"

definition retainedLine :: "string \<Rightarrow> bool" where
  "retainedLine line = (\<not> (startsWith line ''#'' \<or> line = [] \<or> startsWith line ''==''))"

definition parseMsgDefinition :: "string \<Rightarrow> js_error + IMsgSchema" where
  "parseMsgDefinition msgDef =
     scanLines (filter retainedLine (map trim (split_on CHR 0x0A msgDef)))
       \<lparr> topLevelKeys = [], MSGSTypes = [] \<rparr>
       (IMsgFormat [] [] False [] None None)"

section \<open>Message decoder (message-reader.ts)\<close>

text \<open>
  A decoded value. A float is kept as the bytes of its IEEE encoding; \<open>json\<close> yields
  \<open>undefined\<close>.
\<close>

datatype js_value =
    VNumber int
  | VBool bool
  | VString string
  | VTime ITime
  | VFloat buffer
  | VUndefined
  | VArray "js_value list"
  | VObject "(string \<times> js_value) list"

text \<open>
  \<open>StdTypeReader\<close>. The \<open>DataView\<close> is built as \<open>new DataView(buffer.buffer,
  buffer.byteOffset)\<close>, without a length: it runs to the end of the underlying
  \<open>ArrayBuffer\<close>, past the end of \<open>buffer\<close>. \<open>rd_tail\<close> holds the bytes that follow
  \<open>buffer\<close> there. The methods of the \<open>Buffer\<close> are bounded by \<open>buffer\<close>, those of the
  view by \<open>buffer @ tail\<close>.
\<close>

record StdTypeReader =
  rd_buffer :: buffer
  rd_tail :: buffer
  rd_offset :: int

type_synonym parser = "StdTypeReader \<Rightarrow> js_error + (js_value \<times> StdTypeReader)"

definition newStdTypeReader :: "buffer \<Rightarrow> buffer \<Rightarrow> StdTypeReader" where
  "newStdTypeReader buf tail = \<lparr> rd_buffer = buf, rd_tail = tail, rd_offset = 0 \<rparr>"

definition view_get :: "StdTypeReader \<Rightarrow> nat \<Rightarrow> js_error + buffer" where
  "view_get r k =
     (if 0 \<le> rd_offset r \<and> rd_offset r + int k \<le> int (length (rd_buffer r @ rd_tail r))
      then Inr (take k (drop (nat (rd_offset r)) (rd_buffer r @ rd_tail r)))
      else Inl RangeError)"

definition to_signed :: "nat \<Rightarrow> int \<Rightarrow> int" where
  "to_signed bits u = (if u < 2 ^ (bits - 1) then u else u - 2 ^ bits)"

definition advance :: "StdTypeReader \<Rightarrow> int \<Rightarrow> StdTypeReader" where
  "advance r k = r\<lparr> rd_offset := rd_offset r + k \<rparr>"

definition read_uint :: "nat \<Rightarrow> StdTypeReader \<Rightarrow> js_error + (int \<times> StdTypeReader)" where
  "read_uint k r =
     (case view_get r k of Inl e \<Rightarrow> Inl e
      | Inr bs \<Rightarrow> Inr (int (le_nat bs), advance r (int k)))"

definition view_uint :: "nat \<Rightarrow> parser" where
  "view_uint k r =
     (case read_uint k r of Inl e \<Rightarrow> Inl e | Inr (n, r1) \<Rightarrow> Inr (VNumber n, r1))"

definition view_int :: "nat \<Rightarrow> parser" where
  "view_int k r =
     (case view_get r k of Inl e \<Rightarrow> Inl e
      | Inr bs \<Rightarrow> Inr (VNumber (to_signed (8 * k) (int (le_nat bs))), advance r (int k)))"

definition view_float :: "nat \<Rightarrow> parser" where
  "view_float k r =
     (case view_get r k of Inl e \<Rightarrow> Inl e | Inr bs \<Rightarrow> Inr (VFloat bs, advance r (int k)))"

definition rd_bool :: parser where
  "rd_bool r =
     (case view_get r 1 of Inl e \<Rightarrow> Inl e
      | Inr bs \<Rightarrow> Inr (VBool (le_nat bs \<noteq> 0), advance r 1))"

text \<open>
  \<open>buffer.toString("ascii", start, end)\<close>: the bytes from \<open>start\<close> to \<open>end\<close>, clamped to
  the buffer, each with its highest bit cleared; empty when \<open>end\<close> is not after \<open>start\<close>.
\<close>

definition ascii_slice :: "buffer \<Rightarrow> int \<Rightarrow> int \<Rightarrow> string" where
  "ascii_slice buf start end =
     (let st = max start 0; len = int (length buf)
      in if len < st \<or> end \<le> 0 \<or> end \<le> st then []
         else map (\<lambda>c. char_of ((of_char c :: nat) mod 128))
                (take (nat (min end len - st)) (drop (nat st) buf)))"

definition rd_string :: parser where
  "rd_string r =
     (case readInt32LE (rd_buffer r) (rd_offset r) of
        Inl e \<Rightarrow> Inl e
      | Inr strLen \<Rightarrow>
          Inr (VString (ascii_slice (rd_buffer r) (rd_offset r + 4) (rd_offset r + 4 + strLen)),
               advance r (4 + strLen)))"

definition rd_time :: parser where
  "rd_time r =
     (case extractTime (rd_buffer r) (rd_offset r) of
        Inl e \<Rightarrow> Inl e
      | Inr t \<Rightarrow> Inr (VTime t, advance r 8))"

text \<open>
  Modelled from the spec: the helper \<open>int53.readInt64LE\<close> / \<open>int53.readUInt64LE\<close> of the
  package \<open>int53\<close>, which is not among the sources. The specification describes it as
  "a helper that narrows 64-bit integers to doubles (losing precision above 2^53)":
  the eight bytes are read from the \<open>Buffer\<close> and the 64-bit integer is replaced by the
  nearest double, ties to the even significand of 53 bits.
\<close>

definition double_ulp :: "nat \<Rightarrow> nat" where
  "double_ulp a = 2 ^ length (filter (\<lambda>e. 2 ^ (53 + e) \<le> a) [0..<11])"

definition round_to :: "nat \<Rightarrow> nat \<Rightarrow> nat" where
  "round_to u a =
     (let q = a div u; r = a mod u
      in (if u < 2 * r \<or> (2 * r = u \<and> odd q) then q + 1 else q) * u)"

definition to_double :: "int \<Rightarrow> int" where
  "to_double n = sgn n * int (round_to (double_ulp (nat \<bar>n\<bar>)) (nat \<bar>n\<bar>))"

definition buffer_get :: "buffer \<Rightarrow> int \<Rightarrow> nat \<Rightarrow> js_error + buffer" where
  "buffer_get buf off k =
     (if 0 \<le> off \<and> off + int k \<le> int (length buf)
      then Inr (take k (drop (nat off) buf)) else Inl RangeError)"

definition int53_readUInt64LE :: "buffer \<Rightarrow> int \<Rightarrow> js_error + int" where
  "int53_readUInt64LE buf off =
     (case buffer_get buf off 8 of Inl e \<Rightarrow> Inl e
      | Inr bs \<Rightarrow> Inr (to_double (int (le_nat bs))))"

definition int53_readInt64LE :: "buffer \<Rightarrow> int \<Rightarrow> js_error + int" where
  "int53_readInt64LE buf off =
     (case buffer_get buf off 8 of Inl e \<Rightarrow> Inl e
      | Inr bs \<Rightarrow> Inr (to_double (to_signed 64 (int (le_nat bs)))))"

definition rd_int64 :: parser where
  "rd_int64 r =
     (case int53_readInt64LE (rd_buffer r) (rd_offset r) of
        Inl e \<Rightarrow> Inl e
      | Inr d \<Rightarrow> Inr (VNumber d, advance r 8))"

definition rd_uint64 :: parser where
  "rd_uint64 r =
     (case int53_readUInt64LE (rd_buffer r) (rd_offset r) of
        Inl e \<Rightarrow> Inl e
      | Inr d \<Rightarrow> Inr (VNumber d, advance r 8))"

definition rd_json :: parser where
  "rd_json r = Inr (VUndefined, r)"

text \<open>The table \<open>parsingMethods\<close>, looked up by type name: its seventeen own entries.\<close>

definition parsingMethods :: "string \<Rightarrow> parser option" where
  "parsingMethods t =
     (if t = ''string'' then Some rd_string
      else if t = ''bool'' then Some rd_bool
      else if t = ''int8'' then Some (view_int 1)
      else if t = ''uint8'' then Some (view_uint 1)
      else if t = ''int16'' then Some (view_int 2)
      else if t = ''uint16'' then Some (view_uint 2)
      else if t = ''int32'' then Some (view_int 4)
      else if t = ''uint32'' then Some (view_uint 4)
      else if t = ''float32'' then Some (view_float 4)
      else if t = ''float64'' then Some (view_float 8)
      else if t = ''int64'' then Some rd_int64
      else if t = ''uint64'' then Some rd_uint64
      else if t = ''time'' then Some rd_time
      else if t = ''duration'' then Some rd_time
      else if t = ''json'' then Some rd_json
      else if t = ''byte'' then Some (view_int 1)
      else if t = ''char'' then Some (view_uint 1)
      else None)"

text \<open>The loop that fills \<open>new Array(arrLength)\<close>.\<close>

fun readElements :: "parser \<Rightarrow> nat \<Rightarrow> StdTypeReader \<Rightarrow> js_error + (js_value list \<times> StdTypeReader)" where
  "readElements p 0 r = Inr ([], r)"
| "readElements p (Suc n) r =
     (case p r of
        Inl e \<Rightarrow> Inl e
      | Inr (v, r1) \<Rightarrow>
          (case readElements p n r1 of
             Inl e \<Rightarrow> Inl e
           | Inr (vs, r2) \<Rightarrow> Inr (v # vs, r2)))"

text \<open>
  \<open>parseField\<close>. The decoder of a nested message type is a closure taken from the
  memo table \<open>msgTypesParsers\<close> under the field's \<open>keyType\<close>, or built by
  \<open>_createParser\<close> from its \<open>nestedKeys\<close>; it is the parameter \<open>nested\<close>, given
  those two. The two tests \<open>if (field.constantValue)\<close> and \<open>field.arrayLength ||\<close>
  are tests of truthiness: the empty string and the number 0 fail them, as the
  absent value does.
  \<open>new Array(n)\<close> throws a \<open>RangeError\<close> for \<open>n\<close> above \<open>4294967295\<close>.
\<close>

definition truthy_string :: "string option \<Rightarrow> string option" where
  "truthy_string v = (case v of None \<Rightarrow> None | Some s \<Rightarrow> if s \<noteq> [] then Some s else None)"

definition truthy_number :: "nat option \<Rightarrow> nat option" where
  "truthy_number v = (case v of None \<Rightarrow> None | Some n \<Rightarrow> if n \<noteq> 0 then Some n else None)"

definition elementParser :: "(string \<Rightarrow> IMsgFormat list \<Rightarrow> parser) \<Rightarrow> IMsgFormat \<Rightarrow> parser" where
  "elementParser nested field =
     (case parsingMethods (keyType field) of
        Some stdType \<Rightarrow> stdType
      | None \<Rightarrow> nested (keyType field) (nestedKeys field))"

definition parseField :: "(string \<Rightarrow> IMsgFormat list \<Rightarrow> parser) \<Rightarrow> StdTypeReader \<Rightarrow> IMsgFormat
    \<Rightarrow> js_error + (js_value \<times> StdTypeReader)" where
  "parseField nested reader field =
     (case truthy_string (constantValue field) of
        Some c \<Rightarrow> Inr (VString c, reader)
      | None \<Rightarrow>
          if isArray field then
            (case (case truthy_number (arrayLength field) of
                     Some n \<Rightarrow> Inr (int n, reader)
                   | None \<Rightarrow> read_uint 4 reader) of
               Inl e \<Rightarrow> Inl e
             | Inr (arrLength, reader1) \<Rightarrow>
                 if 4294967295 < arrLength then Inl RangeError
                 else (case readElements (elementParser nested field) (nat arrLength) reader1 of
                         Inl e \<Rightarrow> Inl e
                       | Inr (vs, reader2) \<Rightarrow> Inr (VArray vs, reader2)))
          else elementParser nested field reader)"

text \<open>\<open>readMsg\<close>: the top-level fields in order, each stored under its key.\<close>

fun readFields :: "(string \<Rightarrow> IMsgFormat list \<Rightarrow> parser) \<Rightarrow> IMsgFormat list \<Rightarrow> StdTypeReader
    \<Rightarrow> (string \<times> js_value) list \<Rightarrow> js_error + ((string \<times> js_value) list \<times> StdTypeReader)" where
  "readFields nested [] r msg = Inr (msg, r)"
| "readFields nested (f # fs) r msg =
     (case parseField nested r f of
        Inl e \<Rightarrow> Inl e
      | Inr (v, r1) \<Rightarrow> readFields nested fs r1 (AList.update (key f) v msg))"

definition readMsg :: "(string \<Rightarrow> IMsgFormat list \<Rightarrow> parser) \<Rightarrow> IMsgSchema \<Rightarrow> buffer \<Rightarrow> buffer
    \<Rightarrow> js_error + ((string \<times> js_value) list \<times> StdTypeReader)" where
  "readMsg nested schema buf tail =
     readFields nested (topLevelKeys schema) (newStdTypeReader buf tail) []"

text \<open>A nested decoder that is never reached in the evaluations below.\<close>

definition noNested :: "string \<Rightarrow> IMsgFormat list \<Rightarrow> parser" where
  "noNested t fs r = Inl TypeError"

section \<open>Chunk cache (chunk-info-manager.ts)\<close>

text \<open>
  The cache is a JavaScript \<open>Map\<close>, which iterates in insertion order: an association
  list with \<open>Map.set\<close> as \<^const>\<open>AList.update\<close> (an existing key keeps its place, a
  new key goes to the end) and \<open>Map.delete\<close> as \<^const>\<open>AList.delete\<close>.
\<close>

record 'm IChunkCache =
  messages :: "'m list"
  size_bytes :: int

record 'm ChunkInfoManager =
  chunkCache :: "(int \<times> 'm IChunkCache) list"
  currentCacheBytes :: int

definition maxCacheBytes :: int where
  "maxCacheBytes = 50 * 1024 * 1024"

definition setFile :: "'m ChunkInfoManager" where
  "setFile = \<lparr> chunkCache = [], currentCacheBytes = 0 \<rparr>"

definition hasChunk :: "'m ChunkInfoManager \<Rightarrow> int \<Rightarrow> bool" where
  "hasChunk cm i = (map_of (chunkCache cm) i \<noteq> None)"

definition getCachedChunk :: "'m ChunkInfoManager \<Rightarrow> int \<Rightarrow> 'm list option" where
  "getCachedChunk cm i = map_option messages (map_of (chunkCache cm) i)"

text \<open>
  \<open>_cleanupCache\<close>. The oldest key is the first key of the map; \<open>get\<close> of it is
  the first entry, so the test \<open>if (expiredCache)\<close> always succeeds.
\<close>

function cleanupCache :: "'m ChunkInfoManager \<Rightarrow> 'm ChunkInfoManager" where
  "cleanupCache cm =
     (if currentCacheBytes cm > maxCacheBytes \<and> length (chunkCache cm) > 0 then
        (case chunkCache cm of
           [] \<Rightarrow> cm
         | (oldestKey, expiredCache) # rest \<Rightarrow>
             cleanupCache (cm\<lparr> chunkCache := AList.delete oldestKey (chunkCache cm),
                                currentCacheBytes := currentCacheBytes cm - size_bytes expiredCache \<rparr>))
      else cm)"
  by pat_completeness auto
termination
  by (relation "measure (\<lambda>cm. length (chunkCache cm))")
     (auto simp: less_Suc_eq_le AList.length_delete_le)

declare cleanupCache.simps [simp del]

text \<open>
  The body of \<open>reader.onload\<close> in \<open>readChunk$\<close> once the messages are decoded: store the
  entry, bill the span of the chunk on disk, evict.
\<close>

definition cacheInsert ::
  "'m ChunkInfoManager \<Rightarrow> IChunkInfo \<Rightarrow> 'm list \<Rightarrow> 'm ChunkInfoManager" where
  "cacheInsert cm chunkInfo msgs =
     (let chunkSize = int (nextChunkPosition chunkInfo) - int (chunkPosition chunkInfo)
      in cleanupCache
           (cm\<lparr> chunkCache := AList.update (idx chunkInfo)
                                 \<lparr> messages = msgs, size_bytes = chunkSize \<rparr> (chunkCache cm),
                 currentCacheBytes := currentCacheBytes cm + chunkSize \<rparr>))"

fun cacheInserts ::
  "'m ChunkInfoManager \<Rightarrow> (IChunkInfo \<times> 'm list) list \<Rightarrow> 'm ChunkInfoManager" where
  "cacheInserts cm [] = cm"
| "cacheInserts cm ((c, ms) # rest) = cacheInserts (cacheInsert cm c ms) rest"

definition span_ok :: "IChunkInfo \<Rightarrow> bool" where
  "span_ok c = (chunkPosition c \<le> nextChunkPosition c)"

definition MiB :: nat where
  "MiB = 1024 * 1024"

definition chunk_at :: "int \<Rightarrow> nat \<Rightarrow> nat \<Rightarrow> IChunkInfo" where
  "chunk_at i pos nxt =
     \<lparr> ci_recordOffset = 0, ci_recordLength = 0, ci_recordDataOffset = 0, version = 1,
       chunkPosition = pos, startTime = \<lparr> sec = i, nsec = 0 \<rparr>,
       endTime = \<lparr> sec = i, nsec = 0 \<rparr>, count = 0, connections = [], idx = i,
       nextChunkPosition = nxt \<rparr>"

section \<open>Chunk decode pipeline (\<open>_processChunkBuffer\<close>)\<close>

record IIndexDataMsg =
  recievedTime :: ITime
  msgDataOffset :: int

record IIndexData =
  id_recordOffset :: int
  id_recordLength :: int
  id_recordDataOffset :: int
  id_version :: int
  id_conn :: int
  id_count :: int
  recievedMsgs :: "IIndexDataMsg list"

text \<open>\<open>getField\<close> gives \<open>undefined\<close> for a field that is absent: the three strings are optional.\<close>

record IConnection =
  conn :: int
  topicName :: string
  messageType :: "string option"
  md5sum :: "string option"
  messageDefinition :: "string option"

record 'd IRosbagMessage =
  topic :: string
  time :: ITime
  data :: 'd

text \<open>
  \<open>retrieveRecordsFromBuffer\<close>: \<open>recordsCount\<close> records one after the other, each handed
  to \<open>recordParser\<close>. Both parsers of the repository destructure their argument, so a
  record that \<open>shallowRecordRead\<close> returns as \<open>undefined\<close> is a \<open>TypeError\<close>.
\<close>

fun retrieveRecords :: "buffer \<Rightarrow> nat \<Rightarrow> int \<Rightarrow> int \<Rightarrow> (IRecordShallow \<Rightarrow> js_error + 'a)
    \<Rightarrow> js_error + 'a list" where
  "retrieveRecords buf 0 startingOffset bufferOffset recordParser = Inr []"
| "retrieveRecords buf (Suc n) startingOffset bufferOffset recordParser =
     (case shallowRecordRead (subarray_from buf bufferOffset) (startingOffset + bufferOffset) of
        Inl e \<Rightarrow> Inl e
      | Inr None \<Rightarrow> Inl TypeError
      | Inr (Some shallowData) \<Rightarrow>
          (case recordParser shallowData of
             Inl e \<Rightarrow> Inl e
           | Inr parsedData \<Rightarrow>
               (case retrieveRecords buf n startingOffset
                       (bufferOffset + recordLength shallowData) recordParser of
                  Inl e \<Rightarrow> Inl e
                | Inr records \<Rightarrow> Inr (parsedData # records))))"

definition retrieveRecordsFromBuffer :: "buffer \<Rightarrow> int \<Rightarrow> int \<Rightarrow> (IRecordShallow \<Rightarrow> js_error + 'a)
    \<Rightarrow> js_error + 'a list" where
  "retrieveRecordsFromBuffer buf recordsCount startingOffset recordParser =
     retrieveRecords buf (nat recordsCount) startingOffset 0 recordParser"

text \<open>A header field read as \<open>fields.name.readUInt32LE(0)\<close>: a \<open>TypeError\<close> when it is absent.\<close>

definition fieldUInt32 :: "IRecordFields \<Rightarrow> string \<Rightarrow> js_error + int" where
  "fieldUInt32 fs name = (case fs name of None \<Rightarrow> Inl TypeError | Some b \<Rightarrow> readUInt32LE b 0)"

text \<open>The entries \<open>i, i + 1, ...\<close> of the array built by \<open>Array.from\<close> in \<open>_parseIndexDataRecord\<close>.\<close>

fun indexEntries :: "buffer \<Rightarrow> nat \<Rightarrow> nat \<Rightarrow> js_error + IIndexDataMsg list" where
  "indexEntries dataBuf i 0 = Inr []"
| "indexEntries dataBuf i (Suc n) =
     (case extractTime dataBuf (int i * 12) of
        Inl e \<Rightarrow> Inl e
      | Inr t \<Rightarrow>
          (case readUInt32LE dataBuf (int i * 12 + 8) of
             Inl e \<Rightarrow> Inl e
           | Inr off \<Rightarrow>
               (case indexEntries dataBuf (Suc i) n of
                  Inl e \<Rightarrow> Inl e
                | Inr ps \<Rightarrow> Inr (\<lparr> recievedTime = t, msgDataOffset = off \<rparr> # ps))))"

definition parseIndexDataRecord :: "IRecordShallow \<Rightarrow> js_error + IIndexData" where
  "parseIndexDataRecord record =
     (case fieldUInt32 (recordHeaderFields record) ''count'' of
        Inl e \<Rightarrow> Inl e
      | Inr cnt \<Rightarrow>
          (case fieldUInt32 (recordHeaderFields record) ''ver'' of
             Inl e \<Rightarrow> Inl e
           | Inr ver \<Rightarrow>
               (case fieldUInt32 (recordHeaderFields record) ''conn'' of
                  Inl e \<Rightarrow> Inl e
                | Inr c \<Rightarrow>
                    (case indexEntries (recordDataBuffer record) 0 (nat cnt) of
                       Inl e \<Rightarrow> Inl e
                     | Inr msgs \<Rightarrow>
                         Inr \<lparr> id_recordOffset = recordOffset record,
                               id_recordLength = recordLength record,
                               id_recordDataOffset = recordDataOffset record,
                               id_version = ver, id_conn = c, id_count = cnt,
                               recievedMsgs = msgs \<rparr>))))"

text \<open>
  \<open>recordDecompression\<close>, looked up by the compression tag; the LZ4 codec of the
  package \<open>lz4js\<close> is the parameter \<open>lz4\<close>. A tag without an entry gives \<open>undefined\<close>,
  and the call of it throws.
\<close>

type_synonym codec = "buffer \<Rightarrow> int \<Rightarrow> js_error + buffer"

definition recordDecompression :: "codec \<Rightarrow> string \<Rightarrow> codec option" where
  "recordDecompression lz4 tag =
     (if tag = ''none'' then Some (\<lambda>buf sz. Inr buf)
      else if tag = ''lz4'' then Some lz4
      else None)"

text \<open>
  The first part of \<open>_processChunkBuffer\<close>: the chunk record, its decompressed data,
  and the index records that follow it. \<open>None\<close> is the early \<open>return []\<close>.
\<close>

definition chunkContents :: "codec \<Rightarrow> buffer \<Rightarrow> IChunkInfo
    \<Rightarrow> js_error + (buffer \<times> int \<times> IIndexData list) option" where
  "chunkContents lz4 buf chunkInfo =
     (case shallowRecordRead buf (int (chunkPosition chunkInfo)) of
        Inl e \<Rightarrow> Inl e
      | Inr None \<Rightarrow> Inr None
      | Inr (Some chunk) \<Rightarrow>
          (case recordHeaderFields chunk ''compression'' of
             None \<Rightarrow> Inl TypeError
           | Some compression \<Rightarrow>
               (case fieldUInt32 (recordHeaderFields chunk) ''size'' of
                  Inl e \<Rightarrow> Inl e
                | Inr chunkSize \<Rightarrow>
                    (case recordDecompression lz4 (toString compression) of
                       None \<Rightarrow> Inl TypeError
                     | Some decompress \<Rightarrow>
                         (case decompress (recordDataBuffer chunk) chunkSize of
                            Inl e \<Rightarrow> Inl e
                          | Inr decompressedBuffer \<Rightarrow>
                              (case retrieveRecordsFromBuffer
                                      (subarray_from buf (recordLength chunk))
                                      (count chunkInfo)
                                      (int (chunkPosition chunkInfo) + recordLength chunk)
                                      parseIndexDataRecord of
                                 Inl e \<Rightarrow> Inl e
                               | Inr indexedDataList \<Rightarrow>
                                   Inr (Some (decompressedBuffer, recordDataOffset chunk,
                                              indexedDataList))))))))"

text \<open>
  What the pipeline keeps between messages: the schemas interned by message type,
  and the state of the \<open>MessageReaders\<close> instance (its memo tables), of a type \<open>'r\<close>
  that the pipeline does not look into.
\<close>

record 'r decoder_state =
  msgSchemas :: "(string option \<times> IMsgSchema) list"
  readers :: 'r

type_synonym ('r, 'd) reader =
  "'r \<Rightarrow> string option \<Rightarrow> IMsgSchema \<Rightarrow> buffer \<Rightarrow> 'r \<times> (js_error + 'd)"

text \<open>The schema of the message type, compiled on a miss.\<close>

definition schemaFor :: "(string option \<times> IMsgSchema) list \<Rightarrow> IConnection
    \<Rightarrow> js_error + ((string option \<times> IMsgSchema) list \<times> IMsgSchema)" where
  "schemaFor schemas connection =
     (case map_of schemas (messageType connection) of
        Some schema \<Rightarrow> Inr (schemas, schema)
      | None \<Rightarrow>
          (case messageDefinition connection of
             None \<Rightarrow> Inl TypeError
           | Some msgDef \<Rightarrow>
               (case parseMsgDefinition msgDef of
                  Inl e \<Rightarrow> Inl e
                | Inr schema \<Rightarrow>
                    Inr (AList.update (messageType connection) schema schemas, schema))))"

text \<open>
  The body of the decoding loop for one pointer. \<open>None\<close> is a message that is skipped:
  its record has an entry without \<open>=\<close>, its connection is unknown, or \<open>readMsg\<close> threw
  inside the \<open>try\<close>. Everything else that throws ends the whole chunk, and it does so
  before the state has changed. \<open>rdMsg\<close> is the method \<open>readMsg\<close> of the
  \<open>MessageReaders\<close> instance, with its state passed through.
\<close>

definition decodePointer :: "('r, 'd) reader \<Rightarrow> (int \<rightharpoonup> IConnection) \<Rightarrow> buffer \<Rightarrow> int
    \<Rightarrow> 'r decoder_state \<Rightarrow> IIndexDataMsg
    \<Rightarrow> js_error + ('r decoder_state \<times> 'd IRosbagMessage option)" where
  "decodePointer rdMsg conns chunkData chunkDataOffset st p =
     (case shallowRecordRead (subarray_from chunkData (msgDataOffset p)) chunkDataOffset of
        Inl e \<Rightarrow> Inl e
      | Inr None \<Rightarrow> Inr (st, None)
      | Inr (Some msgRecord) \<Rightarrow>
          (case fieldUInt32 (recordHeaderFields msgRecord) ''conn'' of
             Inl e \<Rightarrow> Inl e
           | Inr c \<Rightarrow>
               (case conns c of
                  None \<Rightarrow> Inr (st, None)
                | Some connection \<Rightarrow>
                    (case recordHeaderFields msgRecord ''time'' of
                       None \<Rightarrow> Inl TypeError
                     | Some timeBuf \<Rightarrow>
                         (case extractTime timeBuf 0 of
                            Inl e \<Rightarrow> Inl e
                          | Inr t \<Rightarrow>
                              (case schemaFor (msgSchemas st) connection of
                                 Inl e \<Rightarrow> Inl e
                               | Inr (schemas1, schema) \<Rightarrow>
                                   (case rdMsg (readers st) (messageType connection) schema
                                           (recordDataBuffer msgRecord) of
                                      (r1, Inl e) \<Rightarrow>
                                        Inr (\<lparr> msgSchemas = schemas1, readers = r1 \<rparr>, None)
                                    | (r1, Inr parsed) \<Rightarrow>
                                        Inr (\<lparr> msgSchemas = schemas1, readers = r1 \<rparr>,
                                             Some \<lparr> topic = topicName connection, time = t,
                                                    data = parsed \<rparr>))))))))"

text \<open>The loop over the sorted pointers: the state at the end or at the throw, and the messages.\<close>

fun decodePointers :: "('r, 'd) reader \<Rightarrow> (int \<rightharpoonup> IConnection) \<Rightarrow> buffer \<Rightarrow> int
    \<Rightarrow> 'r decoder_state \<Rightarrow> IIndexDataMsg list
    \<Rightarrow> 'r decoder_state \<times> (js_error + 'd IRosbagMessage list)" where
  "decodePointers rdMsg conns chunkData chunkDataOffset st [] = (st, Inr [])"
| "decodePointers rdMsg conns chunkData chunkDataOffset st (p # ps) =
     (case decodePointer rdMsg conns chunkData chunkDataOffset st p of
        Inl e \<Rightarrow> (st, Inl e)
      | Inr (st1, m) \<Rightarrow>
          (case decodePointers rdMsg conns chunkData chunkDataOffset st1 ps of
             (st2, Inl e) \<Rightarrow> (st2, Inl e)
           | (st2, Inr ms) \<Rightarrow> (st2, Inr (case m of None \<Rightarrow> ms | Some x \<Rightarrow> x # ms))))"

text \<open>
  The second part of \<open>_processChunkBuffer\<close>: flatten the pointers of the index
  records, sort them by received time, decode them in that order.
\<close>

definition sortedPointers :: "IIndexData list \<Rightarrow> IIndexDataMsg list" where
  "sortedPointers indexedDataList =
     js_sort (\<lambda>a b. compareTime (recievedTime a) (recievedTime b))
       (concat (map recievedMsgs indexedDataList))"

definition processChunkBuffer :: "codec \<Rightarrow> ('r, 'd) reader \<Rightarrow> (int \<rightharpoonup> IConnection)
    \<Rightarrow> 'r decoder_state \<Rightarrow> buffer \<Rightarrow> IChunkInfo
    \<Rightarrow> 'r decoder_state \<times> (js_error + 'd IRosbagMessage list)" where
  "processChunkBuffer lz4 rdMsg conns st buf chunkInfo =
     (case chunkContents lz4 buf chunkInfo of
        Inl e \<Rightarrow> (st, Inl e)
      | Inr None \<Rightarrow> (st, Inr [])
      | Inr (Some (chunkData, chunkDataOffset, indexedDataList)) \<Rightarrow>
          decodePointers rdMsg conns chunkData chunkDataOffset st
            (sortedPointers indexedDataList))"

text \<open>
  \<open>file.slice(start, end)\<close> for positions that are not negative, and the body of
  \<open>reader.onload\<close> in \<open>readChunk$\<close>: decode the slice and, unless that throws, store the
  messages in the cache. \<open>_prefetchChunks\<close> calls \<open>readChunk$\<close> with
  \<open>chunk.nextChunkPosition\<close> as the end of the slice; the reads complete in any order.
\<close>

definition blob_slice :: "buffer \<Rightarrow> nat \<Rightarrow> nat \<Rightarrow> buffer" where
  "blob_slice bagFile start end =
     take (min end (length bagFile) - min start (length bagFile))
       (drop (min start (length bagFile)) bagFile)"

definition readChunkLoaded :: "codec \<Rightarrow> ('r, 'd) reader \<Rightarrow> (int \<rightharpoonup> IConnection) \<Rightarrow> buffer
    \<Rightarrow> 'd IRosbagMessage ChunkInfoManager \<times> 'r decoder_state \<Rightarrow> IChunkInfo \<Rightarrow> nat
    \<Rightarrow> ('d IRosbagMessage ChunkInfoManager \<times> 'r decoder_state)
        \<times> (js_error + 'd IRosbagMessage list)" where
  "readChunkLoaded lz4 rdMsg conns bagFile s chunkInfo nextChunkPos =
     (case processChunkBuffer lz4 rdMsg conns (snd s)
             (blob_slice bagFile (chunkPosition chunkInfo) nextChunkPos) chunkInfo of
        (st1, Inl e) \<Rightarrow> ((fst s, st1), Inl e)
      | (st1, Inr msgs) \<Rightarrow> ((cacheInsert (fst s) chunkInfo msgs, st1), Inr msgs))"

fun prefetchReads :: "codec \<Rightarrow> ('r, 'd) reader \<Rightarrow> (int \<rightharpoonup> IConnection) \<Rightarrow> buffer
    \<Rightarrow> 'd IRosbagMessage ChunkInfoManager \<times> 'r decoder_state \<Rightarrow> IChunkInfo list
    \<Rightarrow> 'd IRosbagMessage ChunkInfoManager \<times> 'r decoder_state" where
  "prefetchReads lz4 rdMsg conns bagFile s [] = s"
| "prefetchReads lz4 rdMsg conns bagFile s (c # cs) =
     prefetchReads lz4 rdMsg conns bagFile
       (fst (readChunkLoaded lz4 rdMsg conns bagFile s c (nextChunkPosition c))) cs"

text \<open>The order that the claim about cached chunks speaks of.\<close>

definition time_le :: "ITime \<Rightarrow> ITime \<Rightarrow> bool" where
  "time_le a b = (compareTime a b \<le> 0)"

text \<open>
  The time in the header of the message record that a pointer points to, when the
  record can be read; and the chunks in which the index agrees with these headers.
\<close>

definition headerTime :: "buffer \<Rightarrow> IIndexDataMsg \<Rightarrow> ITime option" where
  "headerTime chunkData p =
     (case shallowRecordRead (subarray_from chunkData (msgDataOffset p)) 0 of
        Inr (Some msgRecord) \<Rightarrow>
          (case recordHeaderFields msgRecord ''time'' of
             Some timeBuf \<Rightarrow> (case extractTime timeBuf 0 of Inr t \<Rightarrow> Some t | Inl e \<Rightarrow> None)
           | None \<Rightarrow> None)
      | _ \<Rightarrow> None)"

definition timesAgree :: "buffer \<Rightarrow> IIndexDataMsg list \<Rightarrow> bool" where
  "timesAgree chunkData ps =
     list_all (\<lambda>p. case headerTime chunkData p of None \<Rightarrow> True | Some t \<Rightarrow> t = recievedTime p) ps"

definition indexAgrees :: "codec \<Rightarrow> buffer \<Rightarrow> IChunkInfo \<Rightarrow> bool" where
  "indexAgrees lz4 buf chunkInfo =
     (case chunkContents lz4 buf chunkInfo of
        Inr (Some (chunkData, chunkDataOffset, indexedDataList)) \<Rightarrow>
          timesAgree chunkData (concat (map recievedMsgs indexedDataList))
      | _ \<Rightarrow> True)"

section \<open>Playback orchestrator (\<open>RosbagManager\<close>)\<close>

record IRosbagOptions =
  prefetch :: real
  playbackSpeed :: real
  loop :: bool

text \<open>
  The state that a tick reads and writes: the subjects of the manager, and the three
  variables of \<open>play()\<close> that its interval callback closes over.
\<close>

record 'd RosbagManager =
  bagMetadata :: "IBagMetadata option"
  chunkManager :: "'d IRosbagMessage ChunkInfoManager"
  options :: IRosbagOptions
  isPlaying :: bool
  currentBagTime :: "ITime option"
  wallStartTime :: real
  bagTimeAtWallStart :: ITime
  lastPrefetchTimeSec :: real

text \<open>
  What a tick sends out, in order: a value on \<open>_currentBagTime$\<close>, on \<open>_isPlaying$\<close>,
  a batch on \<open>_onMessages\<close>, a call of \<open>_prefetchChunks\<close> (which starts asynchronous
  reads and returns).
\<close>

datatype 'd effect =
    CurrentBagTime ITime
  | IsPlaying bool
  | OnMessages "'d IRosbagMessage list"
  | PrefetchChunks ITime

definition inRange :: "ITime \<Rightarrow> ITime \<Rightarrow> ITime \<Rightarrow> ITime \<Rightarrow> bool" where
  "inRange lo hi start end = (0 \<le> compareTime hi start \<and> compareTime lo end \<le> 0)"

definition getMessagesInRange :: "'d RosbagManager \<Rightarrow> ITime \<Rightarrow> ITime \<Rightarrow> 'd IRosbagMessage list" where
  "getMessagesInRange m start end =
     (case bagMetadata m of
        None \<Rightarrow> []
      | Some md \<Rightarrow>
          concat (map (\<lambda>chunk.
                    if \<not> hasChunk (chunkManager m) (idx chunk) then []
                    else (case getCachedChunk (chunkManager m) (idx chunk) of
                            None \<Rightarrow> []
                          | Some cached \<Rightarrow>
                              filter (\<lambda>x. inRange (time x) (time x) start end) cached))
                  (filter (\<lambda>chunk. inRange (startTime chunk) (endTime chunk) start end)
                     (chunksInfo md))))"

definition timeSec :: "ITime \<Rightarrow> real" where
  "timeSec t = real_of_int (sec t) + real_of_int (nsec t) / 1000000000"

text \<open>
  The callback of the playback interval. \<open>md\<close> is the metadata that \<open>play()\<close> read
  when it started; \<open>now1\<close> and \<open>now2\<close> are the two readings of \<open>performance.now()\<close>.
\<close>

definition tick :: "IBagMetadata \<Rightarrow> real \<Rightarrow> real \<Rightarrow> 'd RosbagManager
    \<Rightarrow> 'd RosbagManager \<times> 'd effect list" where
  "tick md now1 now2 m =
     (let elapsedSec = (now1 - wallStartTime m) / 1000;
          newBagTime = addSecToTime (bagTimeAtWallStart m) (elapsedSec * playbackSpeed (options m));
          newTimeSec = timeSec newBagTime;
          previousBagTime = addSecToTime (bagTimeAtWallStart m) (elapsedSec - 33 / 1000)
      in if \<not> isLessThan newBagTime (md_endTime md) then
           (if loop (options m) then
              (m\<lparr> currentBagTime := Some (md_startTime md),
                   bagTimeAtWallStart := md_startTime md,
                   wallStartTime := now2,
                   lastPrefetchTimeSec := timeSec (md_startTime md) \<rparr>,
               [CurrentBagTime (md_startTime md), PrefetchChunks (md_startTime md)])
            else
              (m\<lparr> isPlaying := False, currentBagTime := Some (md_startTime md) \<rparr>,
               [IsPlaying False, CurrentBagTime (md_startTime md)]))
         else
           (let m1 = m\<lparr> currentBagTime := Some newBagTime \<rparr>;
                msgs = getMessagesInRange m1 previousBagTime newBagTime
            in if prefetch (options m) / 2 < newTimeSec - lastPrefetchTimeSec m
               then (m1\<lparr> lastPrefetchTimeSec := newTimeSec \<rparr>,
                     [CurrentBagTime newBagTime, OnMessages msgs, PrefetchChunks newBagTime])
               else (m1, [CurrentBagTime newBagTime, OnMessages msgs])))"

fun isOnMessages :: "'d effect \<Rightarrow> bool" where
  "isOnMessages (OnMessages ms) = True"
| "isOnMessages e = False"

section \<open>Notions used in the statements\<close>

text \<open>
  What \<open>extractFields\<close> computes on a sequence of framed entries: the fields of the
  entries, assigned in order, or nothing at the first entry without \<open>=\<close>.
\<close>

fun fields_of :: "buffer list \<Rightarrow> IRecordFields \<Rightarrow> IRecordFields option" where
  "fields_of [] hf = Some hf"
| "fields_of (d # ds) hf =
     (case indexOf d CHR ''='' of
        None \<Rightarrow> None
      | Some i \<Rightarrow> fields_of ds (setField hf (take i d) (drop (Suc i) d)))"

text \<open>
  The chunk record \<open>j\<close> of the index with its forward link as the code sets it: the
  position of the record that follows it in the index, the file size for the last
  record. \<open>numbered\<close> lists the records \<open>js\<close> with their place as \<open>idx\<close>.
\<close>

definition linked :: "IChunkInfo list \<Rightarrow> nat \<Rightarrow> nat \<Rightarrow> IChunkInfo" where
  "linked parsed fileSize j =
     (parsed ! j)\<lparr> nextChunkPosition :=
        (if j + 1 < length parsed then chunkPosition (parsed ! (j + 1)) else fileSize) \<rparr>"

definition numbered :: "IChunkInfo list \<Rightarrow> nat \<Rightarrow> nat list \<Rightarrow> IChunkInfo list" where
  "numbered parsed fileSize js =
     map (\<lambda>(i, j). (linked parsed fileSize j)\<lparr> idx := int i \<rparr>) (enumerate 0 js)"

text \<open>
  The order of a stable sort of the records \<open>0, 1, ...\<close> by the time \<open>f\<close>: earlier
  times first, and equal times in the order of the records.
\<close>

definition stable_before :: "(nat \<Rightarrow> ITime) \<Rightarrow> nat \<Rightarrow> nat \<Rightarrow> bool" where
  "stable_before f a b = (time_le (f a) (f b) \<and> (if f a = f b then a < b else True))"

text \<open>Two chunks whose order in the index is not the order of their start times.\<close>

definition out_of_order :: "IChunkInfo list" where
  "out_of_order = [chunk_at 20 4117 0, chunk_at 10 9000 0]"

text \<open>The bytes billed to the cache entries, and the invariant of the cache.\<close>

definition sum_sizes :: "(int \<times> 'm IChunkCache) list \<Rightarrow> int" where
  "sum_sizes L = sum_list (map (\<lambda>x. size_bytes (snd x)) L)"

definition sizes_ok :: "(int \<times> 'm IChunkCache) list \<Rightarrow> bool" where
  "sizes_ok L = (distinct (map fst L) \<and> list_all (\<lambda>x. 0 \<le> size_bytes (snd x)) L)"

definition billed :: "(int \<times> 'm IChunkCache) list \<Rightarrow> int \<Rightarrow> int" where
  "billed L k = (case map_of L k of None \<Rightarrow> 0 | Some e \<Rightarrow> size_bytes e)"

definition cache_inv :: "'m ChunkInfoManager \<Rightarrow> bool" where
  "cache_inv cm =
     (sizes_ok (chunkCache cm) \<and> sum_sizes (chunkCache cm) \<le> currentCacheBytes cm
      \<and> currentCacheBytes cm \<le> maxCacheBytes)"

definition two_inserts :: "(IChunkInfo \<times> unit list) list" where
  "two_inserts = [(chunk_at 0 4117 (4117 + 30 * MiB), []),
                  (chunk_at 1 (4117 + 30 * MiB) (4117 + 55 * MiB), [])]"

text \<open>
  A chunk of two message records on connection 0, of 39 bytes each, with header times
  5 s and 9 s and payloads 7 and 8; a connection of type \<open>uint8 data\<close>; the bytes of
  the chunk read from the file, 190 in all: the uncompressed chunk record and one
  index record, which gives the received times \<open>t0\<close> and \<open>t39\<close> for the messages at the
  offsets 0 and 39.
\<close>

definition msg_record :: "nat \<Rightarrow> char \<Rightarrow> buffer" where
  "msg_record s payload =
     frame_entry (frame_entry (''conn='' @ u32le 0) @ frame_entry (''time='' @ u32le s @ u32le 0))
       @ frame_entry [payload]"

definition two_messages :: buffer where
  "two_messages = msg_record 5 (CHR 0x07) @ msg_record 9 (CHR 0x08)"

definition chunk_bytes :: "nat \<Rightarrow> nat \<Rightarrow> buffer" where
  "chunk_bytes t0 t39 =
     frame_entry (frame_entry ''compression=none'' @ frame_entry (''size='' @ u32le 78))
       @ frame_entry two_messages
       @ frame_entry (frame_entry (''ver='' @ u32le 1) @ frame_entry (''conn='' @ u32le 0)
                        @ frame_entry (''count='' @ u32le 2))
       @ frame_entry (u32le t0 @ u32le 0 @ u32le 0 @ u32le t39 @ u32le 0 @ u32le 39)"

definition one_chunk :: IChunkInfo where
  "one_chunk = (chunk_at 0 4117 4307)\<lparr> count := 1 \<rparr>"

definition uint8_conn :: "int \<rightharpoonup> IConnection" where
  "uint8_conn = [0 \<mapsto> \<lparr> conn = 0, topicName = ''/t'', messageType = Some ''std_msgs/UInt8'',
       md5sum = None, messageDefinition = Some ''uint8 data'' \<rparr>]"

definition uint8_schemas :: "(string option \<times> IMsgSchema) list" where
  "uint8_schemas = [(Some ''std_msgs/UInt8'',
      \<lparr> topLevelKeys = [IMsgFormat ''data'' ''uint8'' False [] None None], MSGSTypes = [] \<rparr>)]"

definition plainReadMsg :: "(unit, (string \<times> js_value) list) reader" where
  "plainReadMsg r t schema buf = (r, map_sum id fst (readMsg noNested schema buf []))"

definition noLz4 :: codec where
  "noLz4 buf sz = Inl TypeError"

text \<open>A file of 4307 bytes that holds this chunk, indexed with 5 s and 9 s, at the position 4117.\<close>

definition small_bag :: buffer where
  "small_bag = replicate 4117 (CHR 0x00) @ chunk_bytes 5 9"

definition decoded :: "int \<Rightarrow> int \<Rightarrow> (string \<times> js_value) list IRosbagMessage" where
  "decoded t v = \<lparr> topic = ''/t'', time = \<lparr> sec = t, nsec = 0 \<rparr>, data = [(''data'', VNumber v)] \<rparr>"

text \<open>A header with the right magic and the length bytes \<open>FF FF FF FF\<close>.\<close>

definition negative_length_header :: buffer where
  "negative_length_header =
     FORMAT_VERSION @ [CHR 0xFF, CHR 0xFF, CHR 0xFF, CHR 0xFF, CHR 0x00, CHR 0x00, CHR 0x00, CHR 0x00]"

text \<open>The eight bytes of 9007199254740993, which is 2^53 + 1.\<close>

definition above_2_53 :: buffer where
  "above_2_53 = [CHR 0x01, CHR 0x00, CHR 0x00, CHR 0x00, CHR 0x00, CHR 0x00, CHR 0x20, CHR 0x00]"

text \<open>
  A bag of ten seconds that is played with the default options, anchored at second 9
  when the wall clock read 0 ms.
\<close>

definition ten_seconds :: IBagMetadata where
  "ten_seconds = \<lparr> md_startTime = \<lparr> sec = 0, nsec = 0 \<rparr>, md_endTime = \<lparr> sec = 10, nsec = 0 \<rparr>,
                   chunksInfo = [] \<rparr>"

definition playing_at_9 :: "unit RosbagManager" where
  "playing_at_9 =
     \<lparr> bagMetadata = Some ten_seconds, chunkManager = setFile,
       options = \<lparr> prefetch = 10, playbackSpeed = 1, loop = True \<rparr>,
       isPlaying = True, currentBagTime = Some \<lparr> sec = 9, nsec = 0 \<rparr>,
       wallStartTime = 0, bagTimeAtWallStart = \<lparr> sec = 9, nsec = 0 \<rparr>,
       lastPrefetchTimeSec = 9 \<rparr>"

section \<open>Time arithmetic\<close>

lemma js_rem_real_one_nonneg:
  "0 \<le> s \<Longrightarrow> js_rem_real s 1 = s - of_int \<lfloor>s\<rfloor>"
  by (simp add: js_rem_real_def js_trunc_def)

lemma js_rem_nonneg: "0 \<le> a \<Longrightarrow> 0 < b \<Longrightarrow> js_rem a b = a mod b"
  by (cases "a = 0") (simp_all add: js_rem_def)

lemma floor_div_1e9: "\<lfloor>real_of_int a / 1000000000\<rfloor> = a div 1000000000"
  using floor_divide_of_int_eq [of a 1000000000, where ?'a = real] by simp

text \<open>For an offset that is not negative the code computes the specified result.\<close>

lemma addSecToTime_nonneg:
  assumes "0 \<le> s" and "0 \<le> nsec t"
  shows "addSecToTime t s = add_spec t s"
proof -
  have frac: "0 \<le> \<lfloor>(s - of_int \<lfloor>s\<rfloor>) * 1000000000\<rfloor>"
    by simp
  then have tot: "0 \<le> nsec t + \<lfloor>(s - of_int \<lfloor>s\<rfloor>) * 1000000000\<rfloor>"
    using assms(2) by linarith
  show ?thesis
    using assms(1) tot
    by (simp add: addSecToTime_def add_spec_def Let_def js_rem_real_one_nonneg
        js_rem_nonneg floor_div_1e9 del: of_int_add)
qed

lemma addSecToTime_half_second:
  "addSecToTime \<lparr> sec = 0, nsec = 500000000 \<rparr> (1 / 2) = \<lparr> sec = 1, nsec = 0 \<rparr>"
  by (simp add: addSecToTime_def js_rem_real_def js_trunc_def js_rem_def Let_def)

text \<open>
  Claim C1. The claim is that \<open>addSecToTime\<close> carries correctly for every offset,
  negative fractions included, so that \<open>add({5, 0}, -0.25) = {4, 750000000}\<close> and the
  nanoseconds always lie in \<open>[0, 1e9)\<close>. Evaluated on the code, the offset \<open>-0.25\<close>
  gives \<open>{3, -250000000}\<close>: the remainder \<open>%\<close> keeps the sign of \<open>-0.25\<close>, the
  borrow is taken twice (once by \<open>Math.floor(sec)\<close>, once by the carry) and the
  nanoseconds stay negative. The specified formula gives \<open>{4, 750000000}\<close>.
\<close>

theorem addSecToTime_negative_fraction:
  "addSecToTime \<lparr> sec = 5, nsec = 0 \<rparr> (- 1 / 4) = \<lparr> sec = 3, nsec = - 250000000 \<rparr>
   \<and> add_spec \<lparr> sec = 5, nsec = 0 \<rparr> (- 1 / 4) = \<lparr> sec = 4, nsec = 750000000 \<rparr>"
  by (simp add: addSecToTime_def add_spec_def js_rem_real_def js_trunc_def js_rem_def Let_def)

section \<open>The order of times\<close>

lemma compareTime_le_iff:
  "compareTime a b \<le> 0 \<longleftrightarrow> sec a < sec b \<or> (sec a = sec b \<and> nsec a \<le> nsec b)"
  by (auto simp: compareTime_def Let_def)

lemma time_le_trans: "time_le a b \<Longrightarrow> time_le b c \<Longrightarrow> time_le a c"
  by (auto simp: time_le_def compareTime_le_iff)

lemma time_le_total: "time_le a b \<or> time_le b a"
  by (auto simp: time_le_def compareTime_le_iff)

lemma time_le_refl: "time_le a a"
  by (simp add: time_le_def compareTime_le_iff)

section \<open>Record framing\<close>

lemma le_nat_u32le:
  assumes "n < 4294967296"
  shows "le_nat (u32le n) = n"
proof -
  have d3: "n div 16777216 < 256"
    using assms by (simp add: less_mult_imp_div_less)
  have e3: "n div 16777216 = n div 65536 div 256" by (simp add: div_mult2_eq)
  have e2: "n div 65536 = n div 256 div 256" by (simp add: div_mult2_eq)
  have "le_nat (u32le n) =
      n mod 256 + 256 * (n div 256 mod 256 + 256 * (n div 65536 mod 256 + 256 * (n div 16777216)))"
    using d3 by (simp add: u32le_def)
  also have "n div 65536 mod 256 + 256 * (n div 16777216) = n div 65536"
    unfolding e3 by (rule mod_mult_div_eq)
  also have "n div 256 mod 256 + 256 * (n div 65536) = n div 256"
    unfolding e2 by (rule mod_mult_div_eq)
  also have "n mod 256 + 256 * (n div 256) = n"
    by (rule mod_mult_div_eq)
  finally show ?thesis .
qed

lemma length_u32le: "length (u32le n) = 4"
  by (simp add: u32le_def)

lemma readInt32LE_frame:
  assumes "n < 2147483648"
  shows "readInt32LE (pre @ u32le n @ rest) (int (length pre)) = Inr (int n)"
  using assms
  by (simp add: readInt32LE_def readUInt32LE_def length_u32le le_nat_u32le to_int32_def)

lemma subarray_frame:
  "subarray (pre @ hd4 @ d @ rest) (int (length pre) + int (length hd4))
      (int (length pre) + int (length hd4) + int (length d)) = d"
  by (simp add: subarray_def rel_index_def Let_def min_def)

lemma indexOf_None: "indexOf d c = None \<longleftrightarrow> c \<notin> set d"
  by (induction d) auto

lemma indexOf_Some_mem: "indexOf d c = Some i \<Longrightarrow> c \<in> set d"
  using indexOf_None [of d c] by auto

lemma indexOf_le: "indexOf d c = Some i \<Longrightarrow> i < length d"
  by (induction d arbitrary: i) (auto split: if_splits)

lemma indexOf_append: "c \<notin> set k \<Longrightarrow> indexOf (k @ c # v) c = Some (length k)"
  by (induction k) auto

lemma subarray_prefix: "i \<le> length d \<Longrightarrow> subarray d 0 (int i) = take i d"
  by (simp add: subarray_def rel_index_def Let_def)

lemma subarray_from_suffix: "i \<le> length d \<Longrightarrow> subarray_from d (int i) = drop i d"
  by (simp add: subarray_from_def rel_index_def)

lemma extractFields_loop_done:
  "extractFields_loop buf (int (length buf)) hf = Inr (Some hf)"
  by (subst extractFields_loop.simps) simp

lemma extractFields_loop_unfold:
  assumes "offset < int (length buf)"
    and "readInt32LE buf offset = Inr fieldLen"
    and "subarray buf (offset + 4) (offset + 4 + fieldLen) = fd"
  shows "extractFields_loop buf offset hf =
     (case indexOf fd CHR ''='' of
        None \<Rightarrow> Inr None
      | Some i \<Rightarrow> extractFields_loop buf (offset + 4 + fieldLen)
                    (setField hf (toString (subarray fd 0 (int i))) (subarray_from fd (int i + 1))))"
  using assms by (subst extractFields_loop.simps) (simp add: Let_def split: option.split)

text \<open>One turn of the loop on a framed entry of fewer than 2^31 bytes.\<close>

lemma extractFields_loop_step:
  assumes "length d < 2147483648"
  shows "extractFields_loop (pre @ frame_entry d @ rest) (int (length pre)) hf =
     (case indexOf d CHR ''='' of
        None \<Rightarrow> Inr None
      | Some i \<Rightarrow> extractFields_loop (pre @ frame_entry d @ rest)
                    (int (length (pre @ frame_entry d)))
                    (setField hf (take i d) (drop (Suc i) d)))"
proof -
  let ?buf = "pre @ frame_entry d @ rest"
  have buf: "?buf = pre @ u32le (length d) @ d @ rest" by (simp add: frame_entry_def)
  have lt: "int (length pre) < int (length ?buf)" by (simp add: frame_entry_def length_u32le)
  have rd: "readInt32LE ?buf (int (length pre)) = Inr (int (length d))"
    unfolding buf using assms by (rule readInt32LE_frame)
  have sub: "subarray ?buf (int (length pre) + 4) (int (length pre) + 4 + int (length d)) = d"
    unfolding buf using subarray_frame [of pre "u32le (length d)" d rest] by (simp add: length_u32le)
  have len: "int (length pre) + 4 + int (length d) = int (length (pre @ frame_entry d))"
    by (simp add: frame_entry_def length_u32le)
  note unfold = extractFields_loop_unfold [OF lt rd sub, of hf]
  show ?thesis
  proof (cases "indexOf d CHR ''=''")
    case None
    then show ?thesis by (simp only: unfold option.case)
  next
    case (Some i)
    then have i: "i < length d" by (rule indexOf_le)
    then have 1: "subarray d 0 (int i) = take i d" by (simp add: subarray_prefix)
    have 2: "subarray_from d (int i + 1) = drop (Suc i) d"
      using i subarray_from_suffix [of "Suc i" d] by (simp add: add.commute)
    show ?thesis by (simp only: unfold Some option.case 1 2 len toString_def)
  qed
qed

lemma extractFields_loop_frames:
  assumes "list_all (\<lambda>d. length d < 2147483648) ds"
  shows "extractFields_loop (pre @ frame_entries ds) (int (length pre)) hf = Inr (fields_of ds hf)"
  using assms
proof (induction ds arbitrary: pre hf)
  case Nil
  then show ?case using extractFields_loop_done [of pre hf] by (simp add: frame_entries_def)
next
  case (Cons d ds)
  have buf: "pre @ frame_entries (d # ds) = pre @ frame_entry d @ frame_entries ds"
    by (simp add: frame_entries_def)
  have d: "length d < 2147483648" using Cons.prems by simp
  have rest: "list_all (\<lambda>d. length d < 2147483648) ds" using Cons.prems by simp
  show ?case
  proof (cases "indexOf d CHR ''=''")
    case None
    then show ?thesis unfolding buf by (simp add: extractFields_loop_step [OF d])
  next
    case (Some i)
    have "extractFields_loop ((pre @ frame_entry d) @ frame_entries ds)
            (int (length (pre @ frame_entry d))) (setField hf (take i d) (drop (Suc i) d))
          = Inr (fields_of ds (setField hf (take i d) (drop (Suc i) d)))"
      by (rule Cons.IH [OF rest])
    then show ?thesis unfolding buf using Some by (simp add: extractFields_loop_step [OF d])
  qed
qed

lemma extractFields_frames:
  "list_all (\<lambda>d. length d < 2147483648) ds
   \<Longrightarrow> extractFields (frame_entries ds) = Inr (fields_of ds Map.empty)"
  using extractFields_loop_frames [of ds "[]" Map.empty] by (simp add: extractFields_def)

lemma fields_of_None:
  "fields_of ds hf = None \<longleftrightarrow> list_ex (\<lambda>d. CHR ''='' \<notin> set d) ds"
  by (induction ds arbitrary: hf)
     (auto simp: indexOf_None dest: indexOf_Some_mem split: option.splits)

lemma indexOf_field_entry:
  "CHR ''='' \<notin> set k \<Longrightarrow> indexOf (field_entry (k, v)) CHR ''='' = Some (length k)"
  by (simp add: field_entry_def indexOf_append)

lemma split_field_entry:
  "take (length k) (field_entry (k, v)) = k \<and> drop (Suc (length k)) (field_entry (k, v)) = v"
  by (simp add: field_entry_def)

lemma setField_other: "k \<noteq> ''__proto__'' \<Longrightarrow> setField hf k v = hf(k \<mapsto> v)"
  by (simp add: setField_def)

lemma fields_of_entries:
  assumes "list_all (\<lambda>kv. fst kv \<noteq> ''__proto__'' \<and> CHR ''='' \<notin> set (fst kv)) fs"
    and "distinct (map fst fs)"
  shows "fields_of (map field_entry fs) hf = Some (hf ++ map_of fs)"
  using assms
proof (induction fs arbitrary: hf)
  case Nil
  then show ?case by simp
next
  case (Cons kv fs)
  obtain k v where kv: "kv = (k, v)" by (cases kv)
  have k: "CHR ''='' \<notin> set k" and p: "k \<noteq> ''__proto__''" using Cons.prems(1) kv by simp_all
  have nd: "k \<notin> dom (map_of fs)" using Cons.prems(2) kv by (simp add: dom_map_of_conv_image_fst)
  have "fields_of (map field_entry fs) (hf(k \<mapsto> v)) = Some (hf(k \<mapsto> v) ++ map_of fs)"
    using Cons.prems by (intro Cons.IH) simp_all
  moreover have "hf(k \<mapsto> v) ++ map_of fs = hf ++ map_of ((k, v) # fs)"
    using nd by (simp add: map_add_upd_left)
  moreover have "fields_of (map field_entry ((k, v) # fs)) hf
      = fields_of (map field_entry fs) (hf(k \<mapsto> v))"
    using k by (simp add: indexOf_field_entry split_field_entry setField_other [OF p])
  ultimately show ?case
    unfolding kv by (simp only:)
qed

text \<open>
  Where the code inverts the serialisation: for fields with distinct names that hold
  no \<open>=\<close> and are not \<open>__proto__\<close>, and values of any bytes, in entries shorter than
  2^31 bytes (so that the signed read of the length is the length), parsing the
  concatenated entries returns exactly the map.
\<close>

lemma extractFields_serialize:
  assumes "list_all (\<lambda>kv. fst kv \<noteq> ''__proto__'' \<and> CHR ''='' \<notin> set (fst kv)
                        \<and> length (field_entry kv) < 2147483648) fs"
    and "distinct (map fst fs)"
  shows "extractFields (serialize_fields fs) = Inr (Some (map_of fs))"
proof -
  have 1: "list_all (\<lambda>d. length d < 2147483648) (map field_entry fs)"
    using assms(1) by (simp add: list_all_iff)
  have 2: "list_all (\<lambda>kv. fst kv \<noteq> ''__proto__'' \<and> CHR ''='' \<notin> set (fst kv)) fs"
    using assms(1) by (simp add: list_all_iff)
  show ?thesis
    by (simp add: serialize_fields_def extractFields_frames [OF 1]
          fields_of_entries [OF 2 assms(2)])
qed

text \<open>
  On entries shorter than 2^31 bytes the result is \<open>undefined\<close> exactly when some entry
  holds no \<open>=\<close>, whatever the names are.
\<close>

lemma extractFields_undefined_iff:
  assumes "list_all (\<lambda>d. length d < 2147483648) ds"
  shows "extractFields (frame_entries ds) = Inr None \<longleftrightarrow> list_ex (\<lambda>d. CHR ''='' \<notin> set d) ds"
  using assms by (simp add: extractFields_frames fields_of_None)

lemma extractFields_two_fields:
  "extractFields (serialize_fields [(''a'', ''hello''), (''b'', ''xy '')])
     = Inr (Some (map_of [(''a'', ''hello''), (''b'', ''xy '')]))
   \<and> extractFields (frame_entries [''a=hello'', ''hello'']) = Inr None"
  using extractFields_serialize [of "[(''a'', ''hello''), (''b'', ''xy '')]"]
    extractFields_undefined_iff [of "[''a=hello'', ''hello'']"]
  by (simp add: field_entry_def)

text \<open>
  An entry of 2^31 bytes, where buffers can be that long: the signed read of its length
  gives -2^31, the entry is taken to be the four bytes \<open>k=\<close>, 0, 0, the offset moves
  below zero and the next read of a length throws.
\<close>

lemma extractFields_long_entry:
  "extractFields (serialize_fields [(''k'', replicate 2147483646 (CHR 0x00))]) = Inl RangeError"
  by (simp add: serialize_fields_def frame_entries_def frame_entry_def field_entry_def u32le_def
        extractFields_def extractFields_loop.simps readInt32LE_def readUInt32LE_def to_int32_def
        subarray_def subarray_from_def rel_index_def toString_def setField_def Let_def)

text \<open>
  Claim C3. \<open>extractFields\<close> is to invert the serialisation of a fields map: for every
  map with ASCII names that hold no \<open>=\<close>, and values of any bytes, parsing the
  concatenated entries \<open>len:u32 LE | name = value\<close> is to return exactly that map.
  Evaluated on the code, the map of the one field \<open>__proto__ = x\<close>, whose name is ASCII
  and holds no \<open>=\<close>, is serialised to the 15 bytes \<open>0B 00 00 00 __proto__=x\<close>, and the
  object that \<open>extractFields\<close> returns for them has no own property: the assignment
  \<open>headerFields['__proto__'] = value\<close> has replaced its prototype. The field is lost,
  and the result is not the map, in which \<open>__proto__\<close> is bound to \<open>x\<close>.
\<close>

theorem extractFields_proto_name:
  "is_ascii ''__proto__'' \<and> CHR ''='' \<notin> set ''__proto__''
   \<and> map of_char (serialize_fields [(''__proto__'', ''x'')])
       = [11, 0, 0, 0, 95, 95, 112, 114, 111, 116, 111, 95, 95, 61, 120 :: nat]
   \<and> extractFields (serialize_fields [(''__proto__'', ''x'')]) = Inr (Some Map.empty)
   \<and> map_of [(''__proto__'', ''x'')] ''__proto__'' = Some ''x''"
  by (simp add: is_ascii_def serialize_fields_def frame_entries_def frame_entry_def
        field_entry_def u32le_def extractFields_def extractFields_loop.simps readInt32LE_def
        readUInt32LE_def to_int32_def subarray_def subarray_from_def rel_index_def
        toString_def setField_def Let_def)

section \<open>Header validation\<close>

lemma subarray_0: "0 \<le> n \<Longrightarrow> subarray b 0 n = take (nat n) b"
  by (auto simp: subarray_def rel_index_def Let_def min_def)

text \<open>
  When the four length bytes are below 2^31 the code validates as specified; the
  read of the length cannot throw, behind the test of the buffer length.
\<close>

lemma verifyHeader_agrees:
  assumes "le_nat (take 4 (drop 13 b)) < 2147483648"
  shows "verifyHeader b = Inr (verifyHeader_spec b)"
  using assms
  by (auto simp: verifyHeader_def verifyHeader_spec_def FORMAT_VERSION_OFFSET_def HEADER_MIN_LEN_def
      subarray_0 toString_def readInt32LE_def readUInt32LE_def to_int32_def Let_def)

lemma verifyHeader_dollar:
  "verifyHeader (''$ROSBAG V2.0'' @ CHR 0x0A # rest)
     = Inr (Invalid (InvalidMagic (''$ROSBAG V2.0'' @ [CHR 0x0A])))"
  by (simp add: verifyHeader_def FORMAT_VERSION_OFFSET_def FORMAT_VERSION_def subarray_0
      toString_def Let_def)

text \<open>
  Claim C7. The claim is that validation fails with \<open>HeaderTooLarge\<close> whenever 13 + 8 +
  header length, the length read as an unsigned 32-bit number, exceeds the length of
  the buffer. The code reads the length with \<open>readInt32LE\<close>: on the 21 bytes of the
  magic followed by \<open>FF FF FF FF 00 00 00 00\<close> the length is \<open>-1\<close>, the sum is 20 and the
  header is accepted, where the specified validation answers \<open>HeaderTooLarge\<close> for
  the length 4294967295.
\<close>

theorem verifyHeader_negative_length:
  "verifyHeader negative_length_header = Inr Valid
   \<and> verifyHeader_spec negative_length_header = Invalid HeaderTooLarge"
  by (simp add: verifyHeader_def verifyHeader_spec_def negative_length_header_def
      FORMAT_VERSION_def FORMAT_VERSION_OFFSET_def HEADER_MIN_LEN_def subarray_def rel_index_def
      toString_def readInt32LE_def readUInt32LE_def to_int32_def Let_def)

section \<open>Sorting with a comparator\<close>

lemma set_insort_cmp: "set (insort_cmp cmp x ys) = insert x (set ys)"
  by (induction ys) auto

lemma length_insort_cmp: "length (insort_cmp cmp x ys) = Suc (length ys)"
  by (induction ys) auto

lemma set_js_sort: "set (js_sort cmp xs) = set xs"
  by (induction xs) (simp_all add: js_sort_def set_insort_cmp)

lemma length_js_sort: "length (js_sort cmp xs) = length xs"
  by (induction xs) (simp_all add: js_sort_def length_insort_cmp)

lemma insort_cmp_map:
  "insort_cmp cmp (g x) (map g ys) = map g (insort_cmp (\<lambda>a b. cmp (g a) (g b)) x ys)"
  by (induction ys) auto

lemma js_sort_map:
  "js_sort cmp (map g xs) = map g (js_sort (\<lambda>a b. cmp (g a) (g b)) xs)"
  by (induction xs) (simp_all add: js_sort_def insort_cmp_map)

lemma sorted_insort_key:
  "sorted_wrt (\<lambda>a b. time_le (f a) (f b)) ys \<Longrightarrow>
   sorted_wrt (\<lambda>a b. time_le (f a) (f b)) (insort_cmp (\<lambda>a b. compareTime (f a) (f b)) x ys)"
proof (induction ys)
  case Nil
  then show ?case by simp
next
  case (Cons y ys)
  show ?case
  proof (cases "compareTime (f x) (f y) \<le> 0")
    case True
    then have xy: "time_le (f x) (f y)" by (simp add: time_le_def)
    then have "\<forall>z\<in>set ys. time_le (f x) (f z)"
      using Cons.prems by (auto intro: time_le_trans)
    then show ?thesis using True Cons.prems xy by simp
  next
    case False
    then have "time_le (f y) (f x)"
      using time_le_total [of "f x" "f y"] by (simp add: time_le_def)
    then show ?thesis using False Cons by (auto simp: set_insort_cmp)
  qed
qed

lemma sorted_js_sort_key:
  "sorted_wrt (\<lambda>a b. time_le (f a) (f b)) (js_sort (\<lambda>a b. compareTime (f a) (f b)) xs)"
  by (induction xs) (simp_all add: js_sort_def sorted_insort_key)

text \<open>
  Stability: an index that is inserted in front of larger indices comes to stand
  before every index of the same time.
\<close>

lemma stable_insort:
  assumes "sorted_wrt (stable_before f) ys" and "list_all (\<lambda>y. x < y) ys"
  shows "sorted_wrt (stable_before f) (insort_cmp (\<lambda>a b. compareTime (f a) (f b)) x ys)"
  using assms
proof (induction ys)
  case Nil
  then show ?case by simp
next
  case (Cons y ys)
  show ?case
  proof (cases "compareTime (f x) (f y) \<le> 0")
    case True
    then have xy: "time_le (f x) (f y)" by (simp add: time_le_def)
    have "\<forall>z\<in>set (y # ys). stable_before f x z"
    proof
      fix z assume z: "z \<in> set (y # ys)"
      then have "time_le (f y) (f z)"
        using Cons.prems(1) by (auto simp: stable_before_def time_le_refl)
      then have "time_le (f x) (f z)" using xy by (rule time_le_trans [rotated])
      moreover have "x < z" using z Cons.prems(2) by (auto simp: list_all_iff)
      ultimately show "stable_before f x z" by (simp add: stable_before_def)
    qed
    then show ?thesis using True Cons.prems(1) by simp
  next
    case False
    then have yx: "time_le (f y) (f x)" "f y \<noteq> f x"
      using time_le_total [of "f x" "f y"] time_le_refl [of "f x"] by (auto simp: time_le_def)
    then have "stable_before f y x" by (simp add: stable_before_def)
    then show ?thesis using False Cons by (auto simp: set_insort_cmp)
  qed
qed

lemma stable_js_sort_upt:
  "sorted_wrt (stable_before f) (js_sort (\<lambda>a b. compareTime (f a) (f b)) [i..<n])
   \<and> set (js_sort (\<lambda>a b. compareTime (f a) (f b)) [i..<n]) = {i..<n}"
proof (induction "n - i" arbitrary: i)
  case 0
  then show ?case by (simp add: js_sort_def)
next
  case (Suc d)
  then have lt: "i < n" and d: "d = n - Suc i" by auto
  have upt: "[i..<n] = i # [Suc i..<n]" using lt by (simp add: upt_conv_Cons)
  note IH = Suc.hyps(1) [OF d]
  have larger: "list_all (\<lambda>y. i < y) (js_sort (\<lambda>a b. compareTime (f a) (f b)) [Suc i..<n])"
    using IH by (auto simp: list_all_iff)
  show ?case
    using stable_insort [OF conjunct1 [OF IH] larger] IH lt
    by (auto simp: upt js_sort_def set_insort_cmp)
qed

section \<open>The chunk infos of the metadata\<close>

lemma linkNext_linked:
  assumes "list_all (\<lambda>c. chunkPosition c \<noteq> 0) parsed"
  shows "linkNext parsed fileSize = map (linked parsed fileSize) [0..<length parsed]"
proof (rule nth_equalityI)
  show "length (linkNext parsed fileSize) = length (map (linked parsed fileSize) [0..<length parsed])"
    by (simp add: linkNext_def)
next
  fix j assume "j < length (linkNext parsed fileSize)"
  then have j: "j < length parsed" by (simp add: linkNext_def)
  have "Suc j < length parsed \<Longrightarrow> chunkPosition (parsed ! Suc j) \<noteq> 0"
    using assms by (simp add: list_all_length)
  then show "linkNext parsed fileSize ! j = map (linked parsed fileSize) [0..<length parsed] ! j"
    using j by (auto simp: linkNext_def linked_def nth_enumerate_eq nth_opt_def)
qed

lemma assignIdx_numbered:
  "assignIdx (map (linked parsed fileSize) js) = numbered parsed fileSize js"
  by (rule nth_equalityI) (simp_all add: assignIdx_def numbered_def nth_enumerate_eq)

lemma startTime_linked: "startTime (linked parsed fileSize j) = startTime (parsed ! j)"
  by (simp add: linked_def)

lemma sortChunks_numbered:
  assumes "list_all (\<lambda>c. chunkPosition c \<noteq> 0) parsed"
  shows "sortChunks parsed fileSize =
     numbered parsed fileSize
       (js_sort (\<lambda>a b. compareTime (startTime (parsed ! a)) (startTime (parsed ! b)))
          [0..<length parsed])"
  by (simp add: sortChunks_def linkNext_linked [OF assms] js_sort_map startTime_linked
      assignIdx_numbered)

lemma length_sortChunks: "length (sortChunks parsed fileSize) = length parsed"
  by (simp add: sortChunks_def assignIdx_def length_js_sort linkNext_def)

lemma length_assignIdx: "length (assignIdx cs) = length cs"
  by (simp add: assignIdx_def)

lemma nth_assignIdx: "i < length cs \<Longrightarrow> assignIdx cs ! i = (cs ! i)\<lparr> idx := int i \<rparr>"
  by (simp add: assignIdx_def nth_enumerate_eq)

lemma idx_sortChunks: "i < length parsed \<Longrightarrow> idx (sortChunks parsed fileSize ! i) = int i"
  by (simp add: sortChunks_def nth_assignIdx length_js_sort linkNext_def)

lemma sorted_assignIdx:
  "sorted_wrt (\<lambda>a b. time_le (startTime a) (startTime b)) cs
   \<Longrightarrow> sorted_wrt (\<lambda>a b. time_le (startTime a) (startTime b)) (assignIdx cs)"
  by (simp add: sorted_wrt_iff_nth_less nth_assignIdx length_assignIdx)

lemma sorted_sortChunks:
  "sorted_wrt (\<lambda>a b. time_le (startTime a) (startTime b)) (sortChunks parsed fileSize)"
  unfolding sortChunks_def by (rule sorted_assignIdx) (rule sorted_js_sort_key)

lemma sortChunks_out_of_order:
  "sortChunks out_of_order 12000 =
     [(chunk_at 10 9000 12000)\<lparr> idx := 0 \<rparr>, (chunk_at 20 4117 9000)\<lparr> idx := 1 \<rparr>]"
  by (simp add: sortChunks_def out_of_order_def chunk_at_def linkNext_def nth_opt_def js_sort_def
      compareTime_def assignIdx_def enumerate_eq_zip upt_rec)

text \<open>
  Claim C2, as it is stated, fails: the links are set before the sort, over the order
  of the records in the index. For a chunk at 4117 that starts at second 20, followed
  in the index by a chunk at 9000 that starts at second 10, in a file of 12000 bytes,
  the emitted array begins with the second chunk, linked to 12000 and not to the
  position 4117 of the chunk after it, and the last element is linked to 9000 and
  not to the file size.
\<close>

theorem sortChunks_links_counterexample:
  "nextChunkPosition (sortChunks out_of_order 12000 ! 0)
      \<noteq> chunkPosition (sortChunks out_of_order 12000 ! 1)
   \<and> nextChunkPosition (sortChunks out_of_order 12000 ! 1) \<noteq> 12000"
  by (simp add: sortChunks_out_of_order chunk_at_def)

text \<open>
  Claim C2, amended. After a load with at least one chunk, all chunk positions being
  other than 0, the emitted \<open>chunksInfo\<close> has one element for each chunk record, is
  sorted by \<open>startTime\<close>, and has \<open>idx = i\<close> at every index \<open>i\<close>. It is the records of
  the index in a stable order of their start times (\<open>js\<close>), and the
  \<open>nextChunkPosition\<close> of each element is the \<open>chunkPosition\<close> of the record that
  follows it in the index, before the sort, and the file size for the last record
  of the index.
\<close>

theorem sortChunks_links:
  assumes "list_all (\<lambda>c. chunkPosition c \<noteq> 0) parsed" and "parsed \<noteq> []"
  shows "\<exists>md js. extractFileMetadata parsed fileSize = Inr md
      \<and> length (chunksInfo md) = length parsed
      \<and> sorted_wrt (\<lambda>a b. time_le (startTime a) (startTime b)) (chunksInfo md)
      \<and> list_all (\<lambda>i. idx (chunksInfo md ! i) = int i) [0..<length parsed]
      \<and> chunksInfo md = numbered parsed fileSize js
      \<and> set js = {0..<length parsed} \<and> length js = length parsed
      \<and> sorted_wrt (stable_before (\<lambda>j. startTime (parsed ! j))) js"
proof -
  let ?js = "js_sort (\<lambda>a b. compareTime (startTime (parsed ! a)) (startTime (parsed ! b)))
               [0..<length parsed]"
  let ?cs = "sortChunks parsed fileSize"
  let ?md = "\<lparr> md_startTime = startTime (hd ?cs), md_endTime = endTime (last ?cs),
                chunksInfo = ?cs \<rparr>"
  have ne: "?cs \<noteq> []" using assms(2) length_sortChunks [of parsed fileSize] by auto
  then have "extractFileMetadata parsed fileSize = Inr ?md"
    by (simp add: extractFileMetadata_def Let_def)
  moreover have "list_all (\<lambda>i. idx (?cs ! i) = int i) [0..<length parsed]"
    by (simp add: list_all_iff idx_sortChunks)
  moreover note stable_js_sort_upt [of "\<lambda>j. startTime (parsed ! j)" 0 "length parsed"]
  ultimately show ?thesis
    using length_sortChunks [of parsed fileSize] sorted_sortChunks [of parsed fileSize]
      sortChunks_numbered [OF assms(1), of fileSize]
    by (intro exI [of _ ?md] exI [of _ ?js]) (simp add: length_js_sort)
qed

text \<open>The amended claim at the two chunks above: the records in the order 1, 0.\<close>

theorem sortChunks_links_witness:
  "list_all (\<lambda>c. chunkPosition c \<noteq> 0) out_of_order \<and> out_of_order \<noteq> []
   \<and> (\<exists>md js. extractFileMetadata out_of_order 12000 = Inr md
      \<and> length (chunksInfo md) = length out_of_order
      \<and> sorted_wrt (\<lambda>a b. time_le (startTime a) (startTime b)) (chunksInfo md)
      \<and> list_all (\<lambda>i. idx (chunksInfo md ! i) = int i) [0..<length out_of_order]
      \<and> chunksInfo md = numbered out_of_order 12000 js
      \<and> set js = {0..<length out_of_order} \<and> length js = length out_of_order
      \<and> sorted_wrt (stable_before (\<lambda>j. startTime (out_of_order ! j))) js)"
proof -
  have h: "list_all (\<lambda>c. chunkPosition c \<noteq> 0) out_of_order" "out_of_order \<noteq> []"
    by (simp_all add: out_of_order_def chunk_at_def)
  show ?thesis
    using h sortChunks_links [OF h, of 12000] by blast
qed

section \<open>The byte budget of the cache\<close>

lemma billed_bounds:
  "list_all (\<lambda>x. 0 \<le> size_bytes (snd x)) L \<Longrightarrow> 0 \<le> billed L k \<and> billed L k \<le> sum_sizes L"
  by (induction L) (auto simp: billed_def sum_sizes_def)

lemma sum_sizes_update:
  "sum_sizes (AList.update k v L) = sum_sizes L + size_bytes v - billed L k"
  by (induction L) (auto simp: billed_def sum_sizes_def)

lemma list_all_update:
  "list_all P L \<Longrightarrow> P (k, v) \<Longrightarrow> list_all P (AList.update k v L)"
  by (induction L) auto

text \<open>
  Eviction ends within the budget when the counter exceeds the bytes of the entries
  by no more than the budget: when the cache runs empty the counter holds that excess.
\<close>

lemma cleanupCache_budget:
  "sizes_ok (chunkCache cm) \<Longrightarrow> sum_sizes (chunkCache cm) \<le> currentCacheBytes cm
   \<Longrightarrow> currentCacheBytes cm - sum_sizes (chunkCache cm) \<le> maxCacheBytes
   \<Longrightarrow> sizes_ok (chunkCache (cleanupCache cm))
     \<and> sum_sizes (chunkCache (cleanupCache cm)) \<le> currentCacheBytes (cleanupCache cm)
     \<and> currentCacheBytes (cleanupCache cm) \<le> maxCacheBytes"
proof (induction cm rule: cleanupCache.induct)
  case (1 cm)
  show ?case
  proof (cases "currentCacheBytes cm > maxCacheBytes \<and> length (chunkCache cm) > 0")
    case False
    then have eq: "cleanupCache cm = cm" by (simp add: cleanupCache.simps)
    from False have "currentCacheBytes cm \<le> maxCacheBytes \<or> chunkCache cm = []" by auto
    then have "currentCacheBytes cm \<le> maxCacheBytes"
      using "1.prems"(3) by (auto simp: sum_sizes_def)
    then show ?thesis using "1.prems" eq by simp
  next
    case True
    then obtain k e rest where L: "chunkCache cm = (k, e) # rest"
      by (cases "chunkCache cm") auto
    let ?cm' = "cm\<lparr> chunkCache := AList.delete k (chunkCache cm),
                     currentCacheBytes := currentCacheBytes cm - size_bytes e \<rparr>"
    have eq: "cleanupCache cm = cleanupCache ?cm'"
      using True L by (subst cleanupCache.simps) simp
    have del: "AList.delete k (chunkCache cm) = rest"
      using "1.prems"(1) L by (simp add: sizes_ok_def)
    have "sizes_ok (chunkCache ?cm')"
      using "1.prems"(1) L del by (simp add: sizes_ok_def)
    moreover have "sum_sizes (chunkCache ?cm') \<le> currentCacheBytes ?cm'"
      using "1.prems"(2) L del by (simp add: sum_sizes_def)
    moreover have "currentCacheBytes ?cm' - sum_sizes (chunkCache ?cm') \<le> maxCacheBytes"
      using "1.prems"(3) L del by (simp add: sum_sizes_def)
    ultimately show ?thesis
      using "1.IH" [OF True L refl] eq by simp
  qed
qed

lemma cacheInsert_inv:
  assumes "cache_inv cm" and "span_ok c"
  shows "cache_inv (cacheInsert cm c ms)"
proof -
  let ?s = "int (nextChunkPosition c) - int (chunkPosition c)"
  let ?v = "\<lparr> messages = ms, size_bytes = ?s \<rparr>"
  let ?cm1 = "cm\<lparr> chunkCache := AList.update (idx c) ?v (chunkCache cm),
                  currentCacheBytes := currentCacheBytes cm + ?s \<rparr>"
  have s: "0 \<le> ?s" using assms(2) by (simp add: span_ok_def)
  have nn: "list_all (\<lambda>x. 0 \<le> size_bytes (snd x)) (chunkCache cm)"
    using assms(1) by (simp add: cache_inv_def sizes_ok_def)
  note b = billed_bounds [OF nn, of "idx c"]
  have 1: "sizes_ok (chunkCache ?cm1)"
    using assms(1) s by (simp add: cache_inv_def sizes_ok_def distinct_update list_all_update)
  have 2: "sum_sizes (chunkCache ?cm1) \<le> currentCacheBytes ?cm1"
    using assms(1) b by (simp add: cache_inv_def sum_sizes_update)
  have 3: "currentCacheBytes ?cm1 - sum_sizes (chunkCache ?cm1) \<le> maxCacheBytes"
    using assms(1) b by (simp add: cache_inv_def sum_sizes_update)
  show ?thesis
    using cleanupCache_budget [OF 1 2 3] by (simp add: cacheInsert_def cache_inv_def Let_def)
qed

lemma cacheInserts_inv:
  "cache_inv cm \<Longrightarrow> list_all (\<lambda>x. span_ok (fst x)) ins \<Longrightarrow> cache_inv (cacheInserts cm ins)"
  by (induction cm ins rule: cacheInserts.induct) (auto simp: cacheInsert_inv)

lemma setFile_inv: "cache_inv setFile"
  by (simp add: cache_inv_def setFile_def sizes_ok_def sum_sizes_def maxCacheBytes_def)

lemma cacheInserts_two:
  "cacheInserts setFile two_inserts
     = \<lparr> chunkCache = [(1, \<lparr> messages = [], size_bytes = 25 * int MiB \<rparr>)],
         currentCacheBytes = 25 * int MiB \<rparr>"
  by (simp add: two_inserts_def cacheInsert_def setFile_def chunk_at_def MiB_def maxCacheBytes_def
      cleanupCache.simps Let_def)

text \<open>
  A read whose slice is empty throws before anything is stored: only chunks with
  \<open>chunkPosition < nextChunkPosition\<close> are inserted.
\<close>

lemma blob_slice_empty: "e \<le> s \<Longrightarrow> blob_slice bagFile s e = []"
  by (simp add: blob_slice_def min_def)

lemma processChunkBuffer_empty:
  "processChunkBuffer lz4 rdMsg conns st [] c = (st, Inl RangeError)"
  by (simp add: processChunkBuffer_def chunkContents_def shallowRecordRead_def readInt32LE_def
      readUInt32LE_def)

lemma readChunkLoaded_cases:
  "fst (fst (readChunkLoaded lz4 rdMsg conns bagFile s c (nextChunkPosition c))) = fst s
   \<or> (span_ok c \<and> (\<exists>msgs. fst (fst (readChunkLoaded lz4 rdMsg conns bagFile s c (nextChunkPosition c)))
                          = cacheInsert (fst s) c msgs))"
proof (cases "span_ok c")
  case True
  then show ?thesis
    by (auto simp: readChunkLoaded_def split: prod.splits sum.splits)
next
  case False
  then have "blob_slice bagFile (chunkPosition c) (nextChunkPosition c) = []"
    by (simp add: span_ok_def blob_slice_empty)
  then show ?thesis
    by (simp add: readChunkLoaded_def processChunkBuffer_empty)
qed

lemma readChunkLoaded_inv:
  assumes "cache_inv (fst s)"
  shows "cache_inv (fst (fst (readChunkLoaded lz4 rdMsg conns bagFile s c (nextChunkPosition c))))"
  using readChunkLoaded_cases [of lz4 rdMsg conns bagFile s c] assms
  by (auto simp: cacheInsert_inv)

lemma prefetchReads_inv:
  "cache_inv (fst s) \<Longrightarrow> cache_inv (fst (prefetchReads lz4 rdMsg conns bagFile s cs))"
  by (induction cs arbitrary: s) (simp_all add: readChunkLoaded_inv)

text \<open>
  Claim C4. After every insertion into the cache, eviction done, the counter
  \<open>currentCacheBytes\<close> is at most \<open>maxCacheBytes\<close>, which is 50 MiB: this holds after
  any sequence of completed chunk reads on any file, starting from the cache of a
  newly set file, in any order and with chunks read again, each entry billed as
  \<open>nextChunkPosition - chunkPosition\<close> and the oldest entries evicted first. Inserting
  30 MiB and then 25 MiB evicts the first entry and leaves 25 MiB.
\<close>

theorem cache_budget:
  "currentCacheBytes (fst (prefetchReads lz4 rdMsg conns bagFile (setFile, st) cs)) \<le> maxCacheBytes
   \<and> maxCacheBytes = 50 * int MiB
   \<and> cacheInserts setFile two_inserts
       = \<lparr> chunkCache = [(1, \<lparr> messages = [], size_bytes = 25 * int MiB \<rparr>)],
           currentCacheBytes = 25 * int MiB \<rparr>"
proof -
  have "cache_inv (fst (prefetchReads lz4 rdMsg conns bagFile (setFile, st) cs))"
    by (rule prefetchReads_inv) (simp add: setFile_inv)
  then show ?thesis
    by (simp add: cache_inv_def cacheInserts_two) (simp add: maxCacheBytes_def MiB_def)
qed

section \<open>The order of the decoded messages\<close>

lemma shallowRecordRead_fields:
  "shallowRecordRead b off = Inr (Some r) \<Longrightarrow>
   \<exists>r0. shallowRecordRead b 0 = Inr (Some r0) \<and> recordHeaderFields r0 = recordHeaderFields r"
  by (auto simp: shallowRecordRead_def Let_def split: sum.splits option.splits)

text \<open>The time of a decoded message is the time in the header of its record.\<close>

lemma decodePointer_time:
  assumes "decodePointer rdMsg conns chunkData off st p = Inr (st', Some m)"
  shows "headerTime chunkData p = Some (time m)"
proof -
  from assms obtain r where
    r: "shallowRecordRead (subarray_from chunkData (msgDataOffset p)) off = Inr (Some r)"
    by (auto simp: decodePointer_def split: sum.splits option.splits)
  then obtain r0 where
    r0: "shallowRecordRead (subarray_from chunkData (msgDataOffset p)) 0 = Inr (Some r0)"
      "recordHeaderFields r0 = recordHeaderFields r"
    using shallowRecordRead_fields by blast
  from assms r obtain timeBuf t where
    t: "recordHeaderFields r ''time'' = Some timeBuf" "extractTime timeBuf 0 = Inr t" "time m = t"
    by (auto simp: decodePointer_def split: sum.splits option.splits prod.splits)
  show ?thesis using r0 t by (simp add: headerTime_def)
qed

lemma decodePointers_Cons:
  assumes "decodePointers rdMsg conns chunkData off st (p # ps) = (st', Inr msgs)"
  obtains st1 mo ms where
    "decodePointer rdMsg conns chunkData off st p = Inr (st1, mo)"
    "decodePointers rdMsg conns chunkData off st1 ps = (st', Inr ms)"
    "msgs = (case mo of None \<Rightarrow> ms | Some x \<Rightarrow> x # ms)"
  using assms by (auto split: sum.splits prod.splits)

lemma decodePointers_times:
  assumes "decodePointers rdMsg conns chunkData off st ps = (st', Inr msgs)"
    and "timesAgree chunkData ps"
  shows "list_all (\<lambda>m. \<exists>p\<in>set ps. time m = recievedTime p) msgs"
  using assms
proof (induction ps arbitrary: st st' msgs)
  case Nil
  then show ?case by simp
next
  case (Cons p ps)
  from Cons.prems(1) obtain st1 mo ms where
    p: "decodePointer rdMsg conns chunkData off st p = Inr (st1, mo)" and
    ps: "decodePointers rdMsg conns chunkData off st1 ps = (st', Inr ms)" and
    msgs: "msgs = (case mo of None \<Rightarrow> ms | Some x \<Rightarrow> x # ms)"
    by (rule decodePointers_Cons)
  have agree: "timesAgree chunkData ps" using Cons.prems(2) by (simp add: timesAgree_def)
  have "list_all (\<lambda>m. \<exists>p\<in>set ps. time m = recievedTime p) ms"
    using Cons.IH [OF ps agree] .
  then have ms: "list_all (\<lambda>m. \<exists>q\<in>set (p # ps). time m = recievedTime q) ms"
    by (auto simp: list_all_iff)
  show ?case
  proof (cases mo)
    case None
    then show ?thesis using msgs ms by simp
  next
    case (Some m)
    then have "headerTime chunkData p = Some (time m)" using p by (simp add: decodePointer_time)
    then have "time m = recievedTime p" using Cons.prems(2) by (simp add: timesAgree_def)
    then show ?thesis using msgs ms Some by simp
  qed
qed

lemma decodePointers_sorted:
  assumes "decodePointers rdMsg conns chunkData off st ps = (st', Inr msgs)"
    and "timesAgree chunkData ps"
    and "sorted_wrt (\<lambda>a b. time_le (recievedTime a) (recievedTime b)) ps"
  shows "sorted_wrt (\<lambda>a b. time_le (time a) (time b)) msgs"
  using assms
proof (induction ps arbitrary: st st' msgs)
  case Nil
  then show ?case by simp
next
  case (Cons p ps)
  from Cons.prems(1) obtain st1 mo ms where
    p: "decodePointer rdMsg conns chunkData off st p = Inr (st1, mo)" and
    ps: "decodePointers rdMsg conns chunkData off st1 ps = (st', Inr ms)" and
    msgs: "msgs = (case mo of None \<Rightarrow> ms | Some x \<Rightarrow> x # ms)"
    by (rule decodePointers_Cons)
  have agree: "timesAgree chunkData ps" using Cons.prems(2) by (simp add: timesAgree_def)
  have sorted: "sorted_wrt (\<lambda>a b. time_le (recievedTime a) (recievedTime b)) ps"
    using Cons.prems(3) by simp
  have ms: "sorted_wrt (\<lambda>a b. time_le (time a) (time b)) ms"
    using Cons.IH [OF ps agree sorted] .
  show ?case
  proof (cases mo)
    case None
    then show ?thesis using msgs ms by simp
  next
    case (Some m)
    then have "headerTime chunkData p = Some (time m)" using p by (simp add: decodePointer_time)
    then have tm: "time m = recievedTime p" using Cons.prems(2) by (simp add: timesAgree_def)
    have "\<forall>x\<in>set ms. time_le (time m) (time x)"
    proof
      fix x assume "x \<in> set ms"
      then obtain q where "q \<in> set ps" "time x = recievedTime q"
        using decodePointers_times [OF ps agree] by (auto simp: list_all_iff)
      then show "time_le (time m) (time x)" using Cons.prems(3) tm by auto
    qed
    then show ?thesis using msgs ms Some by simp
  qed
qed

lemma timesAgree_set:
  "timesAgree d ps =
     (\<forall>p\<in>set ps. case headerTime d p of None \<Rightarrow> True | Some t \<Rightarrow> t = recievedTime p)"
  by (simp add: timesAgree_def list_all_iff)

lemma indexEntries_numeral:
  "indexEntries dataBuf i (numeral k) = indexEntries dataBuf i (Suc (pred_numeral k))"
  by (simp add: numeral_eq_Suc)

lemmas pipeline_defs =
  indexEntries_numeral processChunkBuffer_def chunkContents_def recordDecompression_def retrieveRecordsFromBuffer_def
  parseIndexDataRecord_def fieldUInt32_def one_chunk_def chunk_at_def chunk_bytes_def
  sortedPointers_def js_sort_def compareTime_def
  decodePointer_def shallowRecordRead_def subarray_from_def subarray_def rel_index_def
  readInt32LE_def readUInt32LE_def to_int32_def extractFields_def extractFields_loop.simps
  setField_def toString_def extractTime_def schemaFor_def uint8_conn_def plainReadMsg_def
  parseMsgDefinition_def retainedLine_def startsWith_def trim_def is_ws_def parseLine_def
  arrayMatch_def is_digit_def parseInt_def toLowerCase_def to_lower_def
  readMsg_def parseField_def truthy_string_def elementParser_def parsingMethods_def
  newStdTypeReader_def view_uint_def read_uint_def view_get_def advance_def Let_def
  two_messages_def msg_record_def frame_entry_def u32le_def
  decoded_def uint8_schemas_def

lemma process_disagreeing_index:
  "processChunkBuffer noLz4 plainReadMsg uint8_conn \<lparr> msgSchemas = [], readers = () \<rparr>
       (chunk_bytes 2 1) one_chunk
     = (\<lparr> msgSchemas = uint8_schemas, readers = () \<rparr>, Inr [decoded 9 8, decoded 5 7])"
  by (simp add: pipeline_defs)

lemma process_agreeing_index:
  "processChunkBuffer noLz4 plainReadMsg uint8_conn \<lparr> msgSchemas = [], readers = () \<rparr>
       (chunk_bytes 5 9) one_chunk
     = (\<lparr> msgSchemas = uint8_schemas, readers = () \<rparr>, Inr [decoded 5 7, decoded 9 8])"
  by (simp add: pipeline_defs)

lemma agreeing_index: "indexAgrees noLz4 (chunk_bytes 5 9) one_chunk"
  by (simp add: indexAgrees_def timesAgree_def headerTime_def pipeline_defs)

text \<open>A completed read of the chunk of \<open>small_bag\<close> stores its messages, billed with 190 bytes.\<close>

lemma length_chunk_bytes: "length (chunk_bytes a b) = 190"
  by (simp add: chunk_bytes_def two_messages_def msg_record_def frame_entry_def u32le_def)

lemma slice_small_bag: "blob_slice small_bag 4117 4307 = chunk_bytes 5 9"
  by (simp add: blob_slice_def small_bag_def length_chunk_bytes)

lemma prefetchReads_small_bag:
  "prefetchReads noLz4 plainReadMsg uint8_conn small_bag
       (setFile, \<lparr> msgSchemas = [], readers = () \<rparr>) [one_chunk]
     = (\<lparr> chunkCache = [(0, \<lparr> messages = [decoded 5 7, decoded 9 8], size_bytes = 190 \<rparr>)],
          currentCacheBytes = 190 \<rparr>,
        \<lparr> msgSchemas = uint8_schemas, readers = () \<rparr>)"
proof -
  have slice: "blob_slice small_bag (chunkPosition one_chunk) (nextChunkPosition one_chunk)
      = chunk_bytes 5 9"
    using slice_small_bag by (simp add: one_chunk_def chunk_at_def)
  show ?thesis
    by (simp add: readChunkLoaded_def slice process_agreeing_index)
       (simp add: cacheInsert_def setFile_def one_chunk_def chunk_at_def cleanupCache.simps
          maxCacheBytes_def Let_def)
qed

text \<open>
  Claim C5, as it is stated, fails: the pointers are sorted by the received time of
  the index entries, and the \<open>time\<close> of a message is read from the header of its
  record. For the chunk of two messages with header times 5 s and 9 s, indexed with
  the received times 2 s and 1 s, the pipeline returns the message of 9 s before the
  message of 5 s.
\<close>

theorem processChunkBuffer_sorted_counterexample:
  "processChunkBuffer noLz4 plainReadMsg uint8_conn \<lparr> msgSchemas = [], readers = () \<rparr>
       (chunk_bytes 2 1) one_chunk
     = (\<lparr> msgSchemas = uint8_schemas, readers = () \<rparr>, Inr [decoded 9 8, decoded 5 7])
   \<and> \<not> sorted_wrt (\<lambda>a b. time_le (time a) (time b)) [decoded 9 8, decoded 5 7]"
proof (rule conjI)
  show "processChunkBuffer noLz4 plainReadMsg uint8_conn \<lparr> msgSchemas = [], readers = () \<rparr>
       (chunk_bytes 2 1) one_chunk
     = (\<lparr> msgSchemas = uint8_schemas, readers = () \<rparr>, Inr [decoded 9 8, decoded 5 7])"
    by (rule process_disagreeing_index)
  show "\<not> sorted_wrt (\<lambda>a b. time_le (time a) (time b)) [decoded 9 8, decoded 5 7]"
    by (simp add: decoded_def time_le_def compareTime_def)
qed

text \<open>
  Claim C5, amended. For every chunk that the pipeline decodes, in which the time in
  the header of each message record that can be read equals the received time of
  its index entry, the resulting message list is sorted ascending by \<open>time\<close> under
  \<open>compareTime\<close>. (The pipeline sorts the pointers by the received times of the
  index, stably, and decodes them in that order.)
\<close>

theorem processChunkBuffer_sorted:
  assumes "processChunkBuffer lz4 rdMsg conns st buf chunkInfo = (st', Inr msgs)"
    and "indexAgrees lz4 buf chunkInfo"
  shows "sorted_wrt (\<lambda>a b. time_le (time a) (time b)) msgs"
proof (cases "chunkContents lz4 buf chunkInfo")
  case (Inl e)
  then show ?thesis using assms(1) by (simp add: processChunkBuffer_def)
next
  case (Inr contents)
  show ?thesis
  proof (cases contents)
    case None
    then show ?thesis using assms(1) Inr by (auto simp: processChunkBuffer_def)
  next
    case (Some triple)
    then obtain chunkData off idl where
      c: "chunkContents lz4 buf chunkInfo = Inr (Some (chunkData, off, idl))"
      using Inr by (cases triple) auto
    have dec: "decodePointers rdMsg conns chunkData off st (sortedPointers idl) = (st', Inr msgs)"
      using assms(1) c by (simp add: processChunkBuffer_def)
    have "timesAgree chunkData (concat (map recievedMsgs idl))"
      using assms(2) c by (simp add: indexAgrees_def)
    then have agree: "timesAgree chunkData (sortedPointers idl)"
      unfolding timesAgree_set sortedPointers_def set_js_sort .
    have "sorted_wrt (\<lambda>a b. time_le (recievedTime a) (recievedTime b)) (sortedPointers idl)"
      unfolding sortedPointers_def by (rule sorted_js_sort_key)
    with dec agree show ?thesis by (rule decodePointers_sorted)
  qed
qed

text \<open>The amended claim at the same chunk, indexed with the times 5 s and 9 s of its headers.\<close>

theorem processChunkBuffer_sorted_witness:
  "processChunkBuffer noLz4 plainReadMsg uint8_conn \<lparr> msgSchemas = [], readers = () \<rparr>
       (chunk_bytes 5 9) one_chunk
     = (\<lparr> msgSchemas = uint8_schemas, readers = () \<rparr>, Inr [decoded 5 7, decoded 9 8])
   \<and> indexAgrees noLz4 (chunk_bytes 5 9) one_chunk
   \<and> sorted_wrt (\<lambda>a b. time_le (time a) (time b)) [decoded 5 7, decoded 9 8]"
  using processChunkBuffer_sorted [OF process_agreeing_index agreeing_index]
    process_agreeing_index agreeing_index
  by blast

section \<open>Decoding fields\<close>

lemma parseLine_constant:
  "parseMsgDefinition ''uint8 MAX=255''
     = Inr \<lparr> topLevelKeys = [IMsgFormat ''MAX'' ''uint8'' False [] (Some ''255'') None],
             MSGSTypes = [] \<rparr>"
  by (simp add: parseMsgDefinition_def retainedLine_def startsWith_def trim_def is_ws_def
      parseLine_def arrayMatch_def is_digit_def parseInt_def toLowerCase_def to_lower_def Let_def)

text \<open>A constant that is not the empty string is returned, and the reader is as it was.\<close>

lemma parseField_constant:
  "constantValue f = Some c \<Longrightarrow> c \<noteq> [] \<Longrightarrow> parseField nested r f = Inr (VString c, r)"
  by (simp add: parseField_def truthy_string_def)

lemma parseField_MAX:
  "parseField nested r (IMsgFormat ''MAX'' ''uint8'' False [] (Some ''255'') None)
     = Inr (VString ''255'', r)"
  by (simp add: parseField_constant)

text \<open>
  Claim C6. The claim is that a field whose constant value is set decodes to the
  constant and consumes no bytes. The line \<open>uint8 MAX= 255\<close> gives the field \<open>MAX\<close>
  the constant value \<open>""\<close> (the part of the token \<open>MAX=\<close> after the sign; the
  line \<open>string EMPTY=\<close> does the same). The test \<open>if (field.constantValue)\<close> fails
  for the empty string, and the decoder reads the field from the stream: on the
  byte 7 it returns the number 7 and moves the offset to 1.
\<close>

theorem parseField_empty_constant:
  "parseMsgDefinition ''uint8 MAX= 255''
     = Inr \<lparr> topLevelKeys = [IMsgFormat ''MAX'' ''uint8'' False [] (Some []) None],
             MSGSTypes = [] \<rparr>
   \<and> parseField noNested (newStdTypeReader [CHR 0x07] [])
        (IMsgFormat ''MAX'' ''uint8'' False [] (Some []) None)
     = Inr (VNumber 7, \<lparr> rd_buffer = [CHR 0x07], rd_tail = [], rd_offset = 1 \<rparr>)"
  by (simp add: parseMsgDefinition_def retainedLine_def startsWith_def trim_def is_ws_def
      parseLine_def arrayMatch_def is_digit_def parseInt_def toLowerCase_def to_lower_def
      parseField_def truthy_string_def elementParser_def parsingMethods_def
      newStdTypeReader_def view_uint_def read_uint_def view_get_def advance_def Let_def)

lemma elementParser_arrayLength:
  "elementParser nested (IMsgFormat k t a nk cv len)
     = elementParser nested (IMsgFormat k t a nk cv len')"
  by (simp add: elementParser_def split: option.split)

lemma readElements_nonempty:
  "readElements p n r = Inr ([], r') \<Longrightarrow> n = 0 \<and> r' = r"
  by (cases n) (auto split: sum.splits)

lemma read_uint_advances: "read_uint k r = Inr (n, r') \<Longrightarrow> rd_offset r' = rd_offset r + int k"
  by (auto simp: read_uint_def advance_def split: sum.splits)

text \<open>
  Claim C10. A field declared with the fixed array length zero, such as \<open>uint8[0] x\<close>,
  is stored with \<open>arrayLength = 0\<close> and decoded exactly as the unbounded array of the
  same field: a length is read from the cursor as a \<open>u32\<close> and that many elements
  follow. The result is never the empty array with the cursor unmoved; on the bytes
  \<open>02 00 00 00 07 09\<close> it is \<open>[7, 9]\<close> with the offset at 6.
\<close>

theorem parseField_array_length_zero:
  "parseField nested r (IMsgFormat k t True nk cv (Some 0))
     = parseField nested r (IMsgFormat k t True nk cv None)
   \<and> parseField nested r (IMsgFormat k t True nk None (Some 0)) \<noteq> Inr (VArray [], r)
   \<and> parseMsgDefinition ''uint8[0] x''
     = Inr \<lparr> topLevelKeys = [IMsgFormat ''x'' ''uint8'' True [] None (Some 0)], MSGSTypes = [] \<rparr>
   \<and> parseField noNested
        (newStdTypeReader [CHR 0x02, CHR 0x00, CHR 0x00, CHR 0x00, CHR 0x07, CHR 0x09] [])
        (IMsgFormat ''x'' ''uint8'' True [] None (Some 0))
     = Inr (VArray [VNumber 7, VNumber 9],
            \<lparr> rd_buffer = [CHR 0x02, CHR 0x00, CHR 0x00, CHR 0x00, CHR 0x07, CHR 0x09],
              rd_tail = [], rd_offset = 6 \<rparr>)"
proof (intro conjI)
  show "parseField nested r (IMsgFormat k t True nk cv (Some 0))
      = parseField nested r (IMsgFormat k t True nk cv None)"
    unfolding parseField_def elementParser_arrayLength [of nested k t True nk cv "Some 0" None]
    by (cases "truthy_string cv") (simp_all add: truthy_number_def)
next
  show "parseField nested r (IMsgFormat k t True nk None (Some 0)) \<noteq> Inr (VArray [], r)"
  proof
    assume a: "parseField nested r (IMsgFormat k t True nk None (Some 0)) = Inr (VArray [], r)"
    then obtain n r1 where n: "read_uint 4 r = Inr (n, r1)"
      and e: "readElements (elementParser nested (IMsgFormat k t True nk None (Some 0))) (nat n) r1
                = Inr ([], r)"
      by (auto simp: parseField_def truthy_string_def truthy_number_def
          split: sum.splits if_splits)
    from e have "r1 = r" by (auto dest: readElements_nonempty)
    then show False using read_uint_advances [OF n] by simp
  qed
next
  show "parseMsgDefinition ''uint8[0] x''
     = Inr \<lparr> topLevelKeys = [IMsgFormat ''x'' ''uint8'' True [] None (Some 0)], MSGSTypes = [] \<rparr>"
    by (simp add: parseMsgDefinition_def retainedLine_def startsWith_def trim_def is_ws_def
        parseLine_def arrayMatch_def is_digit_def parseInt_def toLowerCase_def to_lower_def Let_def)
next
  show "parseField noNested
        (newStdTypeReader [CHR 0x02, CHR 0x00, CHR 0x00, CHR 0x00, CHR 0x07, CHR 0x09] [])
        (IMsgFormat ''x'' ''uint8'' True [] None (Some 0))
     = Inr (VArray [VNumber 7, VNumber 9],
            \<lparr> rd_buffer = [CHR 0x02, CHR 0x00, CHR 0x00, CHR 0x00, CHR 0x07, CHR 0x09],
              rd_tail = [], rd_offset = 6 \<rparr>)"
    by (simp add: parseField_def truthy_string_def truthy_number_def elementParser_def
        parsingMethods_def newStdTypeReader_def view_uint_def read_uint_def view_get_def
        advance_def numeral_2_eq_2)
qed

section \<open>64-bit integers\<close>

lemma double_ulp_small: "a < 2 ^ 53 \<Longrightarrow> double_ulp a = 1"
proof -
  assume a: "a < 2 ^ 53"
  have "\<And>e. \<not> (2::nat) ^ (53 + e) \<le> a"
  proof
    fix e assume "(2::nat) ^ (53 + e) \<le> a"
    moreover have "(2::nat) ^ 53 \<le> 2 ^ (53 + e)" by (rule power_increasing) simp_all
    ultimately show False using a by linarith
  qed
  then have "filter (\<lambda>e. 2 ^ (53 + e) \<le> a) [0..<11] = []" by simp
  then show ?thesis by (simp add: double_ulp_def)
qed

lemma to_double_exact: "\<bar>n\<bar> < 2 ^ 53 \<Longrightarrow> to_double n = n"
proof -
  assume "\<bar>n\<bar> < 2 ^ 53"
  then have "nat \<bar>n\<bar> < 2 ^ 53" by (simp add: nat_less_iff)
  then have "double_ulp (nat \<bar>n\<bar>) = 1" by (rule double_ulp_small)
  then show ?thesis by (simp add: to_double_def round_to_def mult_sgn_abs)
qed

text \<open>
  Claim C9, as it is stated, fails: the decoded value is a JavaScript number. The
  eight bytes \<open>01 00 00 00 00 00 20 00\<close> hold 9007199254740993, and the decoder of
  \<open>uint64\<close> does not yield that integer.
\<close>

theorem int64_exact_counterexample:
  "int (le_nat above_2_53) = 9007199254740993
   \<and> parseField noNested (newStdTypeReader above_2_53 [])
        (IMsgFormat ''big'' ''uint64'' False [] None None)
      \<noteq> Inr (VNumber 9007199254740993, advance (newStdTypeReader above_2_53 []) 8)"
  by (simp add: parseField_def truthy_string_def elementParser_def parsingMethods_def
      rd_uint64_def int53_readUInt64LE_def buffer_get_def newStdTypeReader_def above_2_53_def
      to_double_def double_ulp_def round_to_def advance_def upt_rec Let_def)

text \<open>
  Claim C9, amended. Decoding an \<open>int64\<close> or \<open>uint64\<close> field reads the 8 bytes at the
  cursor, little-endian, advances the cursor by 8, and yields the exact integer
  whenever its magnitude is below 2^53; above that the value is not preserved.
\<close>

theorem int64_exact_below_2_53:
  assumes "0 \<le> rd_offset r" and "rd_offset r + 8 \<le> int (length (rd_buffer r))"
  shows "(int (le_nat (take 8 (drop (nat (rd_offset r)) (rd_buffer r)))) < 2 ^ 53 \<longrightarrow>
          parseField nested r (IMsgFormat k ''uint64'' False nk None al)
            = Inr (VNumber (int (le_nat (take 8 (drop (nat (rd_offset r)) (rd_buffer r))))),
                   advance r 8))
       \<and> (\<bar>to_signed 64 (int (le_nat (take 8 (drop (nat (rd_offset r)) (rd_buffer r)))))\<bar> < 2 ^ 53 \<longrightarrow>
          parseField nested r (IMsgFormat k ''int64'' False nk None al)
            = Inr (VNumber (to_signed 64
                     (int (le_nat (take 8 (drop (nat (rd_offset r)) (rd_buffer r)))))),
                   advance r 8))"
  using assms
  by (auto simp: parseField_def truthy_string_def elementParser_def parsingMethods_def
      rd_uint64_def rd_int64_def int53_readUInt64LE_def int53_readInt64LE_def buffer_get_def
      to_double_exact)

text \<open>The amended claim at the bytes of 258 and at the bytes of -2.\<close>

theorem int64_exact_below_2_53_witness:
  "parseField noNested (newStdTypeReader
        [CHR 0x02, CHR 0x01, CHR 0x00, CHR 0x00, CHR 0x00, CHR 0x00, CHR 0x00, CHR 0x00] [])
        (IMsgFormat ''n'' ''uint64'' False [] None None)
     = Inr (VNumber 258, advance (newStdTypeReader
        [CHR 0x02, CHR 0x01, CHR 0x00, CHR 0x00, CHR 0x00, CHR 0x00, CHR 0x00, CHR 0x00] []) 8)
   \<and> parseField noNested (newStdTypeReader
        [CHR 0xFE, CHR 0xFF, CHR 0xFF, CHR 0xFF, CHR 0xFF, CHR 0xFF, CHR 0xFF, CHR 0xFF] [])
        (IMsgFormat ''n'' ''int64'' False [] None None)
     = Inr (VNumber (- 2), advance (newStdTypeReader
        [CHR 0xFE, CHR 0xFF, CHR 0xFF, CHR 0xFF, CHR 0xFF, CHR 0xFF, CHR 0xFF, CHR 0xFF] []) 8)"
  using int64_exact_below_2_53 [of "newStdTypeReader
        [CHR 0x02, CHR 0x01, CHR 0x00, CHR 0x00, CHR 0x00, CHR 0x00, CHR 0x00, CHR 0x00] []"
        noNested "''n''" "[]" None]
      int64_exact_below_2_53 [of "newStdTypeReader
        [CHR 0xFE, CHR 0xFF, CHR 0xFF, CHR 0xFF, CHR 0xFF, CHR 0xFF, CHR 0xFF, CHR 0xFF] []"
        noNested "''n''" "[]" None]
  by (simp add: newStdTypeReader_def to_signed_def)

section \<open>The tick at the end of the bag\<close>

text \<open>
  Claim C8. With \<open>loop = true\<close>, a tick whose new bag time is not before the end
  time of the metadata publishes the start time as the current bag time, anchors
  the clock anew (bag anchor at the start time, wall anchor at the present reading,
  last prefetch at the start time), calls the prefetch at the start time and
  returns: these are its only two effects, and no batch of messages is among them.
\<close>

theorem tick_loop_at_end:
  assumes "loop (options m)"
    and "\<not> isLessThan (addSecToTime (bagTimeAtWallStart m)
              ((now1 - wallStartTime m) / 1000 * playbackSpeed (options m))) (md_endTime md)"
  shows "tick md now1 now2 m =
      (m\<lparr> currentBagTime := Some (md_startTime md),
          bagTimeAtWallStart := md_startTime md,
          wallStartTime := now2,
          lastPrefetchTimeSec := timeSec (md_startTime md) \<rparr>,
       [CurrentBagTime (md_startTime md), PrefetchChunks (md_startTime md)])
     \<and> \<not> list_ex isOnMessages (snd (tick md now1 now2 m))"
  using assms by (simp add: tick_def Let_def)

text \<open>
  The theorem at a bag of ten seconds, played from second 9, at the tick 1.5 s later:
  the new bag time is 10.5 s.
\<close>

theorem tick_loop_at_end_witness:
  "loop (options playing_at_9)
   \<and> addSecToTime (bagTimeAtWallStart playing_at_9)
        ((1500 - wallStartTime playing_at_9) / 1000 * playbackSpeed (options playing_at_9))
       = \<lparr> sec = 10, nsec = 500000000 \<rparr>
   \<and> snd (tick ten_seconds 1500 1501 playing_at_9)
       = [CurrentBagTime \<lparr> sec = 0, nsec = 0 \<rparr>, PrefetchChunks \<lparr> sec = 0, nsec = 0 \<rparr>]
   \<and> \<not> list_ex isOnMessages (snd (tick ten_seconds 1500 1501 playing_at_9))"
proof -
  have l: "loop (options playing_at_9)" by (simp add: playing_at_9_def)
  have t: "addSecToTime (bagTimeAtWallStart playing_at_9)
        ((1500 - wallStartTime playing_at_9) / 1000 * playbackSpeed (options playing_at_9))
       = \<lparr> sec = 10, nsec = 500000000 \<rparr>"
    by (simp add: playing_at_9_def addSecToTime_def js_rem_real_def js_trunc_def js_rem_def Let_def)
  have e: "\<not> isLessThan (addSecToTime (bagTimeAtWallStart playing_at_9)
        ((1500 - wallStartTime playing_at_9) / 1000 * playbackSpeed (options playing_at_9)))
        (md_endTime ten_seconds)"
    unfolding t by (simp add: isLessThan_def compareTime_def ten_seconds_def)
  show ?thesis
    using l t tick_loop_at_end [OF l e, of 1501] by (simp add: ten_seconds_def)
qed

end
